theory Spec2Isabelle
  imports Main "HOL-Library.Sublist" "HOL-Library.List_Lexorder"
begin

section \<open>Text\<close>

text \<open>
  The application is a Flask program over SQLite. Its text values are Python strings.
  They are modelled as \<^typ>\<open>string\<close>, a character being the code point of that number:
  the model covers the text whose code points are below 256 (ASCII and the Latin-1
  supplement). The character classes below are Python's \<open>str.isspace\<close>, \<open>str.isalnum\<close>
  and \<open>str.lower\<close> on that range.
\<close>

definition is_space :: "char \<Rightarrow> bool" where
  \<comment> \<open>\<open>str.isspace\<close>, which \<open>str.strip()\<close> uses: TAB, LF, VT, FF, CR, FS, GS, RS, US, the
      blank, NEL and the no-break space.\<close>
  "is_space c =
     (let n = (of_char c :: nat) in
      (9 \<le> n \<and> n \<le> 13) \<or> (28 \<le> n \<and> n \<le> 32) \<or> n = 133 \<or> n = 160)"

definition is_digit :: "char \<Rightarrow> bool" where
  \<comment> \<open>the decimal digits; below 256 there are no others\<close>
  "is_digit c = (let n = (of_char c :: nat) in 48 \<le> n \<and> n \<le> 57)"

definition is_upper :: "char \<Rightarrow> bool" where
  \<comment> \<open>the characters that \<open>str.lower\<close> changes: A to Z and the capital letters of
      Latin-1, which are 32 below their small letters\<close>
  "is_upper c =
     (let n = (of_char c :: nat) in
      (65 \<le> n \<and> n \<le> 90) \<or> (192 \<le> n \<and> n \<le> 214) \<or> (216 \<le> n \<and> n \<le> 222))"

definition isalnum :: "char \<Rightarrow> bool" where
  \<comment> \<open>\<open>str.isalnum\<close>: the digits and letters of ASCII; the ordinal indicators, the micro
      sign, the superscript digits, the vulgar fractions and the letters of Latin-1\<close>
  "isalnum c =
     (let n = (of_char c :: nat) in
      (48 \<le> n \<and> n \<le> 57) \<or> (65 \<le> n \<and> n \<le> 90) \<or> (97 \<le> n \<and> n \<le> 122) \<or>
      n = 170 \<or> n = 178 \<or> n = 179 \<or> n = 181 \<or> n = 185 \<or> n = 186 \<or>
      (188 \<le> n \<and> n \<le> 190) \<or> (192 \<le> n \<and> n \<le> 214) \<or> (216 \<le> n \<and> n \<le> 246) \<or>
      (248 \<le> n \<and> n \<le> 255))"

definition lower_char :: "char \<Rightarrow> char" where
  "lower_char c = (if is_upper c then char_of ((of_char c :: nat) + 32) else c)"

definition lower :: "string \<Rightarrow> string" where
  \<comment> \<open>\<open>str.lower()\<close>\<close>
  "lower s = map lower_char s"

definition strip_chars :: "string \<Rightarrow> string \<Rightarrow> string" where
  \<comment> \<open>\<open>s.strip(chars)\<close>: drops leading and trailing characters that are in \<open>chars\<close>.\<close>
  "strip_chars chars s =
     rev (dropWhile (\<lambda>c. c \<in> set chars) (rev (dropWhile (\<lambda>c. c \<in> set chars) s)))"

definition strip :: "string \<Rightarrow> string" where
  \<comment> \<open>\<open>s.strip()\<close>: drops leading and trailing whitespace.\<close>
  "strip s = rev (dropWhile is_space (rev (dropWhile is_space s)))"

fun split_on :: "char \<Rightarrow> string \<Rightarrow> string list" where
  \<comment> \<open>\<open>s.split(d)\<close> for a one-character separator: always at least one piece.\<close>
  "split_on d [] = [[]]"
| "split_on d (c # cs) =
     (if c = d then [] # split_on d cs
      else (case split_on d cs of [] \<Rightarrow> [[c]] | p # ps \<Rightarrow> (c # p) # ps))"

function replace :: "string \<Rightarrow> string \<Rightarrow> string \<Rightarrow> string" where
  \<comment> \<open>\<open>s.replace(old, new)\<close>: the occurrences of \<open>old\<close>, left to right, not overlapping.\<close>
  "replace old new s =
     (if old = [] then new @ concat (map (\<lambda>c. c # new) s)
      else if s = [] then []
      else if prefix old s then new @ replace old new (drop (length old) s)
      else hd s # replace old new (tl s))"
  by pat_completeness auto
termination
  by (relation "measure (\<lambda>(old, new, s). length s)") auto

declare replace.simps [simp del]


section \<open>The JSON codec of the option lists\<close>

text \<open>
  A select attribute keeps its options as the text \<open>json.dumps(options_list)\<close>, and every
  reader starts with \<open>json.loads\<close>. Both belong to Python's library; they are modelled
  after CPython's scanner and encoder. A decoded string is the list of its code points,
  since a \<open>\uXXXX\<close> escape can denote any of them.
\<close>

datatype json =
    JNull
  | JBool bool
  | JNumber string  \<comment> \<open>the lexeme; also \<open>NaN\<close>, \<open>Infinity\<close>, \<open>-Infinity\<close>\<close>
  | JString "nat list"
  | JArray "json list"
  | JObject "(nat list \<times> json) list"

definition pystr :: "string \<Rightarrow> json" where
  \<comment> \<open>a Python \<open>str\<close> as an element of a decoded list\<close>
  "pystr s = JString (map of_char s)"

datatype jtoken = TLBracket | TRBracket | TLBrace | TRBrace | TComma | TColon | TValue json

definition hexval :: "char \<Rightarrow> nat option" where
  "hexval c =
     (let n = (of_char c :: nat) in
      if 48 \<le> n \<and> n \<le> 57 then Some (n - 48)
      else if 97 \<le> n \<and> n \<le> 102 then Some (n - 87)
      else if 65 \<le> n \<and> n \<le> 70 then Some (n - 55)
      else None)"

fun hex4 :: "string \<Rightarrow> nat option" where
  \<comment> \<open>the four hexadecimal digits after \<open>\u\<close>\<close>
  "hex4 (a # b # c # d # r) =
     (case (hexval a, hexval b, hexval c, hexval d) of
        (Some x, Some y, Some z, Some w) \<Rightarrow> Some (((x * 16 + y) * 16 + z) * 16 + w)
      | _ \<Rightarrow> None)"
| "hex4 _ = None"

definition backslash :: "char \<Rightarrow> nat option" where
  \<comment> \<open>the one-letter escapes of a JSON string\<close>
  "backslash e =
     (if e = CHR 0x22 then Some 0x22
      else if e = CHR 0x5C then Some 0x5C
      else if e = CHR ''/'' then Some 0x2F
      else if e = CHR ''b'' then Some 0x08
      else if e = CHR ''f'' then Some 0x0C
      else if e = CHR ''n'' then Some 0x0A
      else if e = CHR ''r'' then Some 0x0D
      else if e = CHR ''t'' then Some 0x09
      else None)"

definition scons :: "nat \<Rightarrow> (nat list \<times> string) option \<Rightarrow> (nat list \<times> string) option" where
  "scons n r = (case r of None \<Rightarrow> None | Some (ns, rest) \<Rightarrow> Some (n # ns, rest))"

fun scan_string :: "string \<Rightarrow> (nat list \<times> string) option" where
  \<comment> \<open>\<open>scanstring\<close> in strict mode, from the character after the opening quote: the
      decoded string and the text after the closing quote; None is a JSONDecodeError.\<close>
  "scan_string [] = None"
| "scan_string (c # cs) =
     (if c = CHR 0x22 then Some ([], cs)
      else if c = CHR 0x5C then
        (case cs of
           [] \<Rightarrow> None
         | e # r \<Rightarrow>
             if e = CHR ''u'' then
               (case hex4 r of
                  None \<Rightarrow> None
                | Some n \<Rightarrow>
                    if 0xD800 \<le> n \<and> n \<le> 0xDBFF \<and> take 2 (drop 4 r) = [CHR 0x5C, CHR ''u''] then
                      (case hex4 (drop 6 r) of
                         None \<Rightarrow> None
                       | Some m \<Rightarrow>
                           if 0xDC00 \<le> m \<and> m \<le> 0xDFFF
                           then scons (0x10000 + (n - 0xD800) * 0x400 + (m - 0xDC00))
                                  (scan_string (drop 10 r))
                           else scons n (scan_string (drop 4 r)))
                    else scons n (scan_string (drop 4 r)))
             else (case backslash e of None \<Rightarrow> None | Some d \<Rightarrow> scons d (scan_string r)))
      else if (of_char c :: nat) \<le> 0x1F then None
      else scons (of_char c) (scan_string cs))"

definition num_sign' :: "string \<Rightarrow> string \<times> string" where
  \<comment> \<open>the optional sign of an exponent\<close>
  "num_sign' s =
     (if s \<noteq> [] \<and> (hd s = CHR ''+'' \<or> hd s = CHR ''-'') then ([hd s], tl s) else ([], s))"

definition num_sign :: "string \<Rightarrow> string \<times> string" where
  "num_sign s = (if s \<noteq> [] \<and> hd s = CHR ''-'' then (''-'', tl s) else ([], s))"

definition num_int :: "string \<Rightarrow> (string \<times> string) option" where
  \<comment> \<open>\<open>0|[1-9]\d*\<close>\<close>
  "num_int s =
     (if s = [] \<or> \<not> is_digit (hd s) then None
      else if hd s = CHR ''0'' then Some (''0'', tl s)
      else Some (takeWhile is_digit s, dropWhile is_digit s))"

definition num_frac :: "string \<Rightarrow> string \<times> string" where
  \<comment> \<open>\<open>(\.\d+)?\<close>\<close>
  "num_frac s =
     (if s \<noteq> [] \<and> hd s = CHR ''.'' \<and> tl s \<noteq> [] \<and> is_digit (hd (tl s))
      then (CHR ''.'' # takeWhile is_digit (tl s), dropWhile is_digit (tl s))
      else ([], s))"

definition num_exp :: "string \<Rightarrow> string \<times> string" where
  \<comment> \<open>\<open>([eE][-+]?\d+)?\<close>\<close>
  "num_exp s =
     (if s \<noteq> [] \<and> (hd s = CHR ''e'' \<or> hd s = CHR ''E'') then
        (case num_sign' (tl s) of (es, r) \<Rightarrow>
           if r \<noteq> [] \<and> is_digit (hd r)
           then (hd s # es @ takeWhile is_digit r, dropWhile is_digit r)
           else ([], s))
      else ([], s))"

definition scan_number :: "string \<Rightarrow> (string \<times> string) option" where
  \<comment> \<open>the longest prefix matching \<open>-?(0|[1-9]\d*)(\.\d+)?([eE][-+]?\d+)?\<close>, and the rest\<close>
  "scan_number s =
     (case num_sign s of (sg, s1) \<Rightarrow>
        (case num_int s1 of
           None \<Rightarrow> None
         | Some (ip, s2) \<Rightarrow>
             (case num_frac s2 of (fp, s3) \<Rightarrow>
                (case num_exp s3 of (ep, s4) \<Rightarrow> Some (sg @ ip @ fp @ ep, s4)))))"

definition json_ws :: "char \<Rightarrow> bool" where
  "json_ws c = (c = CHR '' '' \<or> c = CHR 0x09 \<or> c = CHR 0x0A \<or> c = CHR 0x0D)"

lemma scons_shorter:
  "scons n r = Some (ns, rest) \<Longrightarrow> \<exists>ms. r = Some (ms, rest)"
  by (cases r) (auto simp: scons_def)

lemma scan_string_shorter: "scan_string s = Some (ns, r) \<Longrightarrow> length r < length s"
proof (induction s arbitrary: ns rule: scan_string.induct)
  case 1
  then show ?case by simp
next
  case (2 c cs)
  then show ?case
    by (force simp: Let_def split: if_splits list.splits option.splits dest!: scons_shorter)
qed


lemma num_sign_le: "num_sign s = (a, r) \<Longrightarrow> length r \<le> length s"
  by (auto simp: num_sign_def split: if_splits)

lemma num_sign'_le: "num_sign' s = (a, r) \<Longrightarrow> length r \<le> length s"
  by (auto simp: num_sign'_def split: if_splits)

lemma num_int_less: "num_int s = Some (a, r) \<Longrightarrow> length r < length s"
  by (cases s) (auto simp: num_int_def le_imp_less_Suc length_dropWhile_le split: if_splits)

lemma num_frac_le: "num_frac s = (a, r) \<Longrightarrow> length r \<le> length s"
proof -
  have "length (dropWhile is_digit (tl s)) \<le> length s"
    using length_dropWhile_le [of is_digit "tl s"] by simp
  then show "num_frac s = (a, r) \<Longrightarrow> length r \<le> length s"
    by (auto simp: num_frac_def split: if_splits)
qed

lemma num_exp_le: "num_exp s = (a, r) \<Longrightarrow> length r \<le> length s"
proof -
  assume a: "num_exp s = (a, r)"
  obtain es t where t: "num_sign' (tl s) = (es, t)" by (cases "num_sign' (tl s)")
  then have "length t \<le> length s" using num_sign'_le [OF t] by simp
  then have "length (dropWhile is_digit t) \<le> length s"
    using length_dropWhile_le [of is_digit t] by simp
  with a t show ?thesis by (auto simp: num_exp_def split: if_splits)
qed

lemma scan_number_shorter: "scan_number s = Some (l, r) \<Longrightarrow> length r < length s"
proof -
  assume a: "scan_number s = Some (l, r)"
  obtain sg s1 where 1: "num_sign s = (sg, s1)" by (cases "num_sign s")
  from a 1 obtain ip s2 where 2: "num_int s1 = Some (ip, s2)"
    by (cases "num_int s1") (auto simp: scan_number_def)
  obtain fp s3 where 3: "num_frac s2 = (fp, s3)" by (cases "num_frac s2")
  obtain ep s4 where 4: "num_exp s3 = (ep, s4)" by (cases "num_exp s3")
  from a 1 2 3 4 have "r = s4" by (simp add: scan_number_def)
  with num_sign_le [OF 1] num_int_less [OF 2] num_frac_le [OF 3] num_exp_le [OF 4]
  show ?thesis by simp
qed

function json_lex :: "string \<Rightarrow> jtoken list option" where
  \<comment> \<open>the tokens of a JSON text; None when some character starts no token\<close>
  "json_lex [] = Some []"
| "json_lex (c # cs) =
     (if json_ws c then json_lex cs
      else if c = CHR ''['' then map_option ((#) TLBracket) (json_lex cs)
      else if c = CHR '']'' then map_option ((#) TRBracket) (json_lex cs)
      else if c = CHR ''{'' then map_option ((#) TLBrace) (json_lex cs)
      else if c = CHR ''}'' then map_option ((#) TRBrace) (json_lex cs)
      else if c = CHR '','' then map_option ((#) TComma) (json_lex cs)
      else if c = CHR '':'' then map_option ((#) TColon) (json_lex cs)
      else if c = CHR 0x22 then
        (case scan_string cs of
           None \<Rightarrow> None
         | Some (str, r) \<Rightarrow> map_option ((#) (TValue (JString str))) (json_lex r))
      else if prefix ''null'' (c # cs) then
        map_option ((#) (TValue JNull)) (json_lex (drop 3 cs))
      else if prefix ''true'' (c # cs) then
        map_option ((#) (TValue (JBool True))) (json_lex (drop 3 cs))
      else if prefix ''false'' (c # cs) then
        map_option ((#) (TValue (JBool False))) (json_lex (drop 4 cs))
      else if prefix ''NaN'' (c # cs) then
        map_option ((#) (TValue (JNumber ''NaN''))) (json_lex (drop 2 cs))
      else if prefix ''Infinity'' (c # cs) then
        map_option ((#) (TValue (JNumber ''Infinity''))) (json_lex (drop 7 cs))
      else if prefix ''-Infinity'' (c # cs) then
        map_option ((#) (TValue (JNumber ''-Infinity''))) (json_lex (drop 8 cs))
      else
        (case scan_number (c # cs) of
           None \<Rightarrow> None
         | Some (l, r) \<Rightarrow> map_option ((#) (TValue (JNumber l))) (json_lex r)))"
  by pat_completeness auto
termination
  by (relation "measure length")
     (auto dest: scan_string_shorter scan_number_shorter intro: le_imp_less_Suc)

declare json_lex.simps [simp del]

text \<open>
  The grammar over the tokens is run as a pushdown automaton: a stack of the arrays and
  objects that are open, and what may come next.
\<close>

datatype jframe =
    FArray "json list"  \<comment> \<open>the elements so far, last first\<close>
  | FObject "(nat list \<times> json) list" "nat list"  \<comment> \<open>the pairs so far, and the pending key\<close>

datatype jmode =
    WantValue | WantValueOrClose | WantKeyOrClose | WantKey | WantColon
  | WantCommaOrClose | Finished json

type_synonym jstate = "jmode \<times> jframe list"

fun push_value :: "json \<Rightarrow> jframe list \<Rightarrow> jstate option" where
  "push_value v [] = Some (Finished v, [])"
| "push_value v (FArray items # st) = Some (WantCommaOrClose, FArray (v # items) # st)"
| "push_value v (FObject kvs k # st) = Some (WantCommaOrClose, FObject ((k, v) # kvs) k # st)"

fun open_value :: "jtoken \<Rightarrow> jframe list \<Rightarrow> jstate option" where
  \<comment> \<open>a token that starts a value\<close>
  "open_value (TValue v) st = push_value v st"
| "open_value TLBracket st = Some (WantValueOrClose, FArray [] # st)"
| "open_value TLBrace st = Some (WantKeyOrClose, FObject [] [] # st)"
| "open_value _ st = None"

fun set_key :: "jtoken \<Rightarrow> jframe list \<Rightarrow> jstate option" where
  "set_key (TValue (JString k)) (FObject kvs _ # st) = Some (WantColon, FObject kvs k # st)"
| "set_key _ _ = None"

fun close_frame :: "jtoken \<Rightarrow> jframe list \<Rightarrow> jstate option" where
  "close_frame TRBracket (FArray items # st) = push_value (JArray (rev items)) st"
| "close_frame TRBrace (FObject kvs _ # st) = push_value (JObject (rev kvs)) st"
| "close_frame _ _ = None"

fun json_step :: "jstate \<Rightarrow> jtoken \<Rightarrow> jstate option" where
  "json_step (WantValue, st) t = open_value t st"
| "json_step (WantValueOrClose, st) t =
     (if t = TRBracket then close_frame t st else open_value t st)"
| "json_step (WantKeyOrClose, st) t =
     (if t = TRBrace then close_frame t st else set_key t st)"
| "json_step (WantKey, st) t = set_key t st"
| "json_step (WantColon, st) t = (if t = TColon then Some (WantValue, st) else None)"
| "json_step (WantCommaOrClose, st) t =
     (if t = TComma then
        (case st of
           FArray _ # _ \<Rightarrow> Some (WantValue, st)
         | FObject _ _ # _ \<Rightarrow> Some (WantKey, st)
         | [] \<Rightarrow> None)
      else close_frame t st)"
| "json_step (Finished v, st) t = None"

fun json_run :: "jstate \<Rightarrow> jtoken list \<Rightarrow> json option" where
  "json_run (Finished v, st) [] = Some v"
| "json_run _ [] = None"
| "json_run q (t # ts) = (case json_step q t of None \<Rightarrow> None | Some q' \<Rightarrow> json_run q' ts)"

definition json_loads :: "string \<Rightarrow> json option" where
  \<comment> \<open>\<open>json.loads(s)\<close>; None is a JSONDecodeError\<close>
  "json_loads s =
     (case json_lex s of None \<Rightarrow> None | Some ts \<Rightarrow> json_run (WantValue, []) ts)"

definition hexdigit :: "nat \<Rightarrow> char" where
  "hexdigit d = (if d < 10 then char_of (48 + d) else char_of (87 + d))"

definition escape_char :: "char \<Rightarrow> string" where
  \<comment> \<open>\<open>ESCAPE_ASCII\<close>: printable ASCII but the quote and the backslash stands for itself\<close>
  "escape_char c =
     (let n = (of_char c :: nat) in
      if c = CHR 0x22 then [CHR 0x5C, CHR 0x22]
      else if c = CHR 0x5C then [CHR 0x5C, CHR 0x5C]
      else if n = 0x0A then [CHR 0x5C, CHR ''n'']
      else if n = 0x0D then [CHR 0x5C, CHR ''r'']
      else if n = 0x09 then [CHR 0x5C, CHR ''t'']
      else if n = 0x08 then [CHR 0x5C, CHR ''b'']
      else if n = 0x0C then [CHR 0x5C, CHR ''f'']
      else if 0x20 \<le> n \<and> n \<le> 0x7E then [c]
      else [CHR 0x5C, CHR ''u'', CHR ''0'', CHR ''0'', hexdigit (n div 16), hexdigit (n mod 16)])"

definition dumps_str :: "string \<Rightarrow> string" where
  "dumps_str s = CHR 0x22 # concat (map escape_char s) @ [CHR 0x22]"

fun join :: "string \<Rightarrow> string list \<Rightarrow> string" where
  \<comment> \<open>\<open>sep.join(xs)\<close>\<close>
  "join sep [] = []"
| "join sep [x] = x"
| "join sep (x # y # ys) = x @ sep @ join sep (y # ys)"

definition json_dumps :: "string list \<Rightarrow> string" where
  \<comment> \<open>\<open>json.dumps\<close> of a list of \<open>str\<close>, with the default separators\<close>
  "json_dumps xs = ''['' @ join '', '' (map dumps_str xs) @ '']''"


section \<open>Reading the options of a select attribute\<close>

text \<open>
  Every view decodes the \<open>options\<close> cell of \<open>stock_columns\<close> with its own copy of the
  same idea: \<open>json.loads\<close> first and, on a JSONDecodeError, a scan that drops the
  brackets and splits on commas. The cell is NULL (None) or a text. The copies are not
  the same code: \<open>stok_listesi\<close> (lines 171-195) tests the cleaned token, the list
  comprehension of \<open>add_product\<close> (lines 324-336, and again in \<open>update_product\<close>, lines
  445-457) tests the token before its quotes are removed, and decodes the unstripped
  text.
\<close>

definition clean_option :: "string \<Rightarrow> string" where
  \<comment> \<open>\<open>opt.strip().strip("'\"").replace('\\"', '"')\<close>\<close>
  "clean_option opt =
     replace [CHR 0x5C, CHR 0x22] [CHR 0x22] (strip_chars [CHR 0x27, CHR 0x22] (strip opt))"

definition remove_brackets :: "string \<Rightarrow> string" where
  \<comment> \<open>\<open>s.replace('[', '').replace(']', '')\<close>\<close>
  "remove_brackets s = replace '']'' [] (replace ''['' [] s)"


definition add_product_options :: "string option \<Rightarrow> json list" where
  "add_product_options db_options =
     (case db_options of
        None \<Rightarrow> []
      | Some raw \<Rightarrow>
          if raw = [] then []
          else
            (case json_loads raw of
               Some loaded_options \<Rightarrow>
                 (case loaded_options of JArray options_list \<Rightarrow> options_list | _ \<Rightarrow> [])
             | None \<Rightarrow>
                 let cleaned_str = strip (remove_brackets (strip raw)) in
                 map (\<lambda>opt. pystr (clean_option opt))
                   (filter (\<lambda>opt. strip opt \<noteq> []) (split_on (CHR '','') cleaned_str))))"

definition parse_options :: "string \<Rightarrow> string list" where
  \<comment> \<open>\<open>[opt.strip() for opt in options_raw.split(',') if opt.strip()]\<close>
      (\<open>add_column\<close>, line 271; \<open>update_column_options\<close>, line 583)\<close>
  "parse_options options_raw =
     map strip (filter (\<lambda>opt. strip opt \<noteq> []) (split_on (CHR '','') options_raw))"

definition tolerant_scan :: "string \<Rightarrow> string list" where
  \<comment> \<open>The fallback as the specification words it: strip the bracket characters, split
      on commas, trim whitespace and surrounding quote characters from each token,
      replace escaped double quotes, discard the tokens that are empty then.\<close>
  "tolerant_scan s =
     filter (\<lambda>t. t \<noteq> [])
       (map (\<lambda>tok. replace [CHR 0x5C, CHR 0x22] [CHR 0x22]
                     (strip_chars [CHR 0x27, CHR 0x22] (strip tok)))
          (split_on (CHR '','') (filter (\<lambda>c. c \<noteq> CHR ''['' \<and> c \<noteq> CHR '']'') s)))"


section \<open>Numbers read from form fields\<close>

text \<open>
  \<open>float(s)\<close> and \<open>int(s)\<close> are Python's; None stands for their ValueError. Both drop
  the whitespace around the number, which for them is TAB to CR, the blank, NEL and the
  no-break space, and read ASCII digits, that may be grouped by single underscores. A
  float is kept as the decimal that was written, mantissa and power of ten, standing for
  the binary64 nearest to it; a decimal that rounds beyond the largest binary64 is \<open>inf\<close>.
\<close>

datatype pyfloat = Dec int int | PosInf | NegInf | NaN

fun is_negative :: "pyfloat \<Rightarrow> bool" where
  "is_negative (Dec m e) = (m < 0)"
| "is_negative NegInf = True"
| "is_negative _ = False"

fun digitpart :: "string \<Rightarrow> string \<times> string" where
  \<comment> \<open>\<open>digit (["_"] digit)*\<close>: the digits read, without the underscores, and the rest\<close>
  "digitpart (c # u # d # r) =
     (if is_digit c then
        (if is_digit u then apfst ((#) c) (digitpart (u # d # r))
         else if u = CHR ''_'' \<and> is_digit d then apfst ((#) c) (digitpart (d # r))
         else ([c], u # d # r))
      else ([], c # u # d # r))"
| "digitpart [c, u] =
     (if is_digit c then (if is_digit u then ([c, u], []) else ([c], [u])) else ([], [c, u]))"
| "digitpart [c] = (if is_digit c then ([c], []) else ([], [c]))"
| "digitpart [] = ([], [])"

definition digits_value :: "string \<Rightarrow> int" where
  "digits_value ds = foldl (\<lambda>a c. a * 10 + (int (of_char c) - 48)) 0 ds"

definition py_sign :: "string \<Rightarrow> bool \<times> string" where
  \<comment> \<open>an optional sign: whether it is a minus, and the rest\<close>
  "py_sign s =
     (if s \<noteq> [] \<and> hd s = CHR ''-'' then (True, tl s)
      else if s \<noteq> [] \<and> hd s = CHR ''+'' then (False, tl s)
      else (False, s))"

definition number_space :: "char \<Rightarrow> bool" where
  \<comment> \<open>the whitespace that \<open>float\<close> and \<open>int\<close> drop\<close>
  "number_space c =
     (let n = (of_char c :: nat) in (9 \<le> n \<and> n \<le> 13) \<or> n = 32 \<or> n = 133 \<or> n = 160)"

definition number_strip :: "string \<Rightarrow> string" where
  "number_strip s = rev (dropWhile number_space (rev (dropWhile number_space s)))"

definition py_int :: "string \<Rightarrow> int option" where
  \<comment> \<open>\<open>int(s)\<close> in base 10\<close>
  "py_int s =
     (case py_sign (number_strip s) of (neg, t) \<Rightarrow>
        (case digitpart t of (ds, r) \<Rightarrow>
           if ds = [] \<or> r \<noteq> [] then None
           else Some (if neg then - digits_value ds else digits_value ds)))"

definition overflows :: "int \<Rightarrow> int \<Rightarrow> bool" where
  \<comment> \<open>whether \<open>m * 10 ^ e\<close> is at least half way from the largest binary64,
      \<open>2 ^ 1024 - 2 ^ 971\<close>, to \<open>2 ^ 1024\<close>\<close>
  "overflows m e =
     (if 0 \<le> e then 2 ^ 1024 - 2 ^ 970 \<le> \<bar>m\<bar> * 10 ^ nat e
      else (2 ^ 1024 - 2 ^ 970) * 10 ^ nat (- e) \<le> \<bar>m\<bar>)"

definition decimal :: "bool \<Rightarrow> int \<Rightarrow> int \<Rightarrow> pyfloat" where
  \<comment> \<open>the float of a sign, a mantissa that is not negative and an exponent\<close>
  "decimal neg m e =
     (if overflows m e then (if neg then NegInf else PosInf)
      else Dec (if neg then - m else m) e)"

definition float_literal :: "string \<Rightarrow> pyfloat option" where
  \<comment> \<open>an optional sign, then \<open>inf\<close>, \<open>infinity\<close> or \<open>nan\<close> in any case, or digits with an
      optional point and an optional exponent\<close>
  "float_literal s =
     (case py_sign s of (neg, t) \<Rightarrow>
        if lower t = ''inf'' \<or> lower t = ''infinity'' then Some (if neg then NegInf else PosInf)
        else if lower t = ''nan'' then Some NaN
        else
          (case digitpart t of (ip, r1) \<Rightarrow>
             (case (if r1 \<noteq> [] \<and> hd r1 = CHR ''.'' then digitpart (tl r1) else ([], r1)) of
                (fp, r2) \<Rightarrow>
                  if ip = [] \<and> fp = [] then None
                  else if r2 = [] then
                    Some (decimal neg (digits_value (ip @ fp)) (- int (length fp)))
                  else if hd r2 = CHR ''e'' \<or> hd r2 = CHR ''E'' then
                    (case py_sign (tl r2) of (eneg, r3) \<Rightarrow>
                       (case digitpart r3 of (ep, r4) \<Rightarrow>
                          if ep = [] \<or> r4 \<noteq> [] then None
                          else Some (decimal neg (digits_value (ip @ fp))
                                 ((if eneg then - digits_value ep else digits_value ep)
                                    - int (length fp)))))
                  else None)))"

definition py_float :: "string \<Rightarrow> pyfloat option" where
  \<comment> \<open>\<open>float(s)\<close>\<close>
  "py_float s = float_literal (number_strip s)"


section \<open>The tenant's store\<close>

text \<open>
  One SQLite file per tenant, as \<open>init_stock_table\<close> creates it. The model keeps what is
  committed: every view runs on a connection of its own that is closed when the request
  ends, so a write that is not followed by \<open>db.commit()\<close> is lost, while \<open>ALTER TABLE\<close>,
  which Python's \<open>sqlite3\<close> runs outside a transaction, is kept as soon as it succeeds.

  The \<open>products\<close> table gains and renames columns at run time, so it is a list of column
  names and rows of cells in the same order. Positions keep what \<open>CREATE TABLE\<close> declared:
  0 is \<open>id INTEGER PRIMARY KEY AUTOINCREMENT\<close>, 1 is \<open>user_product_id INTEGER\<close>, 2 is
  \<open>name TEXT NOT NULL\<close>, 3 is \<open>price REAL NOT NULL\<close>, later ones are \<open>TEXT DEFAULT ""\<close>.
  A cell holds the value that was bound to it.

  Two settings of the SQLite library that the program leaves at their defaults are
  fields of the store and never change: whether foreign keys are enforced (the program
  never runs \<open>PRAGMA foreign_keys\<close>; the schema declares \<open>ON DELETE CASCADE\<close>), and the
  words that SQL does not accept as a column name. Failures of the disk and limits of
  the library on sizes are not modelled.
\<close>

datatype sqlval = Null | IntV int | RealV pyfloat | TextV string

record inv_row =
  inv_id :: int
  product_id :: int
  quantity :: int
  location :: string
  last_updated :: string

record column_def =
  def_id :: int
  column_name :: string
  column_type :: string
  options :: "string option"

record visibility =
  vis_id :: int
  user_id :: int
  vis_column :: string
  is_visible :: int

record store =
  product_columns :: "string list"
  products :: "sqlval list list"
  products_seq :: int
  inventory :: "inv_row list"
  inventory_seq :: int
  stock_columns :: "column_def list"
  stock_columns_seq :: int
  user_column_visibility :: "visibility list"
  visibility_seq :: int
  foreign_keys :: bool
  sql_reserved :: "string list"

definition init_stock_table :: "bool \<Rightarrow> string list \<Rightarrow> store" where
  \<comment> \<open>the store after \<open>init_stock_table\<close> on a new file\<close>
  "init_stock_table fk reserved =
     \<lparr> product_columns = [''id'', ''user_product_id'', ''name'', ''price''],
       products = [], products_seq = 0,
       inventory = [], inventory_seq = 0,
       stock_columns = [], stock_columns_seq = 0,
       user_column_visibility = [], visibility_seq = 0,
       foreign_keys = fk, sql_reserved = reserved \<rparr>"

datatype error =
    MissingField  \<comment> \<open>a required form field is empty\<close>
  | InvalidAttributeName
  | EmptyOptionSet
  | DuplicateAttribute
  | AttributeNotFound
  | NotASelectAttribute
  | ProtectedColumn
  | EmptyName
  | InvalidPrice
  | InvalidNumericValue
  | InvalidOption
  | ProductNotFound
  | EntryNotFound
  | NegativeQuantity
  | InvalidFormat  \<comment> \<open>a product id or a quantity that is not an integer\<close>
  | DuplicateLocation  \<comment> \<open>the \<open>sqlite3.IntegrityError\<close> handler of \<open>update_inventory\<close>\<close>
  | OperationalError  \<comment> \<open>a caught \<open>sqlite3.OperationalError\<close>\<close>
  | DatabaseError  \<comment> \<open>any other exception caught by the view's \<open>except Exception\<close>\<close>
  | Unhandled  \<comment> \<open>an exception that leaves the view\<close>

datatype response = Ok | Err error

definition reserved_names :: "string list" where
  "reserved_names = [''id'', ''name'', ''price'', ''user_product_id'']"

definition int64 :: "int \<Rightarrow> bool" where
  \<comment> \<open>what \<open>sqlite3\<close> binds as an INTEGER; a larger Python int raises OverflowError\<close>
  "int64 n = (- (2 ^ 63) \<le> n \<and> n < 2 ^ 63)"

definition next_rowid :: "int \<Rightarrow> int list \<Rightarrow> int" where
  \<comment> \<open>AUTOINCREMENT: one more than the largest rowid that was ever in the table\<close>
  "next_rowid seq ids = fold max ids seq + 1"

definition sql_lower_char :: "char \<Rightarrow> char" where
  \<comment> \<open>SQLite folds the case of A to Z only\<close>
  "sql_lower_char c =
     (let n = (of_char c :: nat) in if 65 \<le> n \<and> n \<le> 90 then char_of (n + 32) else c)"

definition sql_lower :: "string \<Rightarrow> string" where
  "sql_lower s = map sql_lower_char s"

definition col_index :: "string list \<Rightarrow> string \<Rightarrow> nat option" where
  \<comment> \<open>SQL resolves a column name without regard to ASCII case\<close>
  "col_index cols name =
     (if sql_lower name \<in> set (map sql_lower cols)
      then Some (length (takeWhile (\<lambda>c. sql_lower c \<noteq> sql_lower name) cols)) else None)"

definition sql_idchar :: "char \<Rightarrow> bool" where
  \<comment> \<open>the characters of a bare word in SQLite: ASCII letters and digits, the underscore,
      the dollar sign and everything beyond ASCII\<close>
  "sql_idchar c =
     (let n = (of_char c :: nat) in
      (48 \<le> n \<and> n \<le> 57) \<or> (65 \<le> n \<and> n \<le> 90) \<or> (97 \<le> n \<and> n \<le> 122) \<or>
      c = CHR ''_'' \<or> c = CHR ''$'' \<or> 128 \<le> n)"

definition sql_identifier :: "store \<Rightarrow> string \<Rightarrow> bool" where
  \<comment> \<open>a bare word that SQL reads as a column name\<close>
  "sql_identifier s name =
     (name \<noteq> [] \<and> \<not> is_digit (hd name) \<and> hd name \<noteq> CHR ''$'' \<and>
      (\<forall>c \<in> set name. sql_idchar c) \<and>
      sql_lower name \<notin> set (map sql_lower (sql_reserved s)))"

definition sanitize :: "string \<Rightarrow> string" where
  \<comment> \<open>\<open>''.join(c for c in raw if c.isalnum() or c == ' ').replace(' ', '_').lower()\<close>\<close>
  "sanitize raw = lower (replace '' '' ''_'' (filter (\<lambda>c. isalnum c \<or> c = CHR '' '') raw))"

definition form_get :: "(string \<times> string) list \<Rightarrow> string \<Rightarrow> string" where
  \<comment> \<open>\<open>request.form.get(key, '')\<close>\<close>
  "form_get form key = (case map_of form key of None \<Rightarrow> [] | Some v \<Rightarrow> v)"


section \<open>Statements on the products table\<close>

definition cell :: "sqlval list \<Rightarrow> nat \<Rightarrow> sqlval" where
  "cell row i = (if i < length row then row ! i else Null)"

definition bind :: "sqlval \<Rightarrow> sqlval" where
  \<comment> \<open>SQLite keeps a NaN as NULL\<close>
  "bind v = (if v = RealV NaN then Null else v)"

definition bindable :: "sqlval \<Rightarrow> bool" where
  "bindable v = (case v of IntV n \<Rightarrow> int64 n | _ \<Rightarrow> True)"

definition default_row :: "nat \<Rightarrow> sqlval list" where
  \<comment> \<open>the declared defaults of \<open>n\<close> columns\<close>
  "default_row n = take n [Null, Null, Null, Null] @ replicate (n - 4) (TextV [])"

fun assign :: "string list \<Rightarrow> (string \<times> sqlval) list \<Rightarrow> sqlval list \<Rightarrow> sqlval list" where
  "assign cols [] row = row"
| "assign cols ((c, v) # bs) row =
     assign cols bs (case col_index cols c of None \<Rightarrow> row | Some i \<Rightarrow> row[i := bind v])"

definition not_null_ok :: "sqlval list \<Rightarrow> bool" where
  \<comment> \<open>the NOT NULL of the columns declared as \<open>name\<close> and \<open>price\<close>\<close>
  "not_null_ok row = (cell row 2 \<noteq> Null \<and> cell row 3 \<noteq> Null)"

definition rowids :: "store \<Rightarrow> int list" where
  "rowids s = concat (map (\<lambda>r. case cell r 0 of IntV n \<Rightarrow> [n] | _ \<Rightarrow> []) (products s))"

definition sql_strip :: "string \<Rightarrow> string" where
  \<comment> \<open>SQLite skips TAB to CR and the blank around a number written as text\<close>
  "sql_strip t =
     (let sp = (\<lambda>c. let n = (of_char c :: nat) in (9 \<le> n \<and> n \<le> 13) \<or> n = 32)
      in rev (dropWhile sp (rev (dropWhile sp t))))"

definition explicit_rowid :: "sqlval \<Rightarrow> int option" where
  \<comment> \<open>A value bound to the INTEGER PRIMARY KEY itself, which the program can do only
      after that column was renamed: it must be a whole number, also as text; None is
      SQLite's datatype mismatch.\<close>
  "explicit_rowid v =
     (case (case v of
              IntV n \<Rightarrow> Some (Dec n 0)
            | RealV f \<Rightarrow> Some f
            | TextV t \<Rightarrow> (if CHR ''_'' \<in> set t then None else float_literal (sql_strip t))
            | Null \<Rightarrow> None) of
        Some (Dec m e) \<Rightarrow>
          if 0 \<le> e then Some (m * 10 ^ nat e)
          else if m mod 10 ^ nat (- e) = 0 then Some (m div 10 ^ nat (- e))
          else None
      | _ \<Rightarrow> None)"

definition sql_insert_product :: "store \<Rightarrow> (string \<times> sqlval) list \<Rightarrow> (int \<times> store) option" where
  \<comment> \<open>\<open>INSERT INTO products (columns) VALUES (values)\<close>: the new rowid and the store, None
      when the statement raises\<close>
  "sql_insert_product s binds =
     (let cols = product_columns s in
      if \<not> (\<forall>b \<in> set binds. bindable (snd b)) then None
      else if \<not> (\<forall>b \<in> set binds. col_index cols (fst b) \<noteq> None) then None
      else
        let row = assign cols binds (default_row (length cols)) in
        if \<not> not_null_ok row then None
        else if cell row 0 = Null then
          (let rid = next_rowid (products_seq s) (rowids s) in
           if \<not> int64 rid then None
           else Some (rid, s\<lparr>products := products s @ [row[0 := IntV rid]],
                               products_seq := rid\<rparr>))
        else
          (case explicit_rowid (cell row 0) of
             None \<Rightarrow> None
           | Some rid \<Rightarrow>
               if rid \<in> set (rowids s) \<or> \<not> int64 rid then None
               else Some (rid, s\<lparr>products := products s @ [row[0 := IntV rid]],
                                   products_seq := max (products_seq s) rid\<rparr>)))"

definition sql_update_product ::
  "store \<Rightarrow> (string \<times> sqlval) list \<Rightarrow> int \<Rightarrow> (nat \<times> store) option" where
  \<comment> \<open>\<open>UPDATE products SET column = value, ... WHERE id = ?\<close>: the number of rows changed
      and the store, None when the statement raises\<close>
  "sql_update_product s binds pid =
     (let cols = product_columns s in
      if \<not> int64 pid \<or> \<not> (\<forall>b \<in> set binds. bindable (snd b)) then None
      else if \<not> (\<forall>b \<in> set binds. col_index cols (fst b) \<noteq> None) then None
      else
        (case col_index cols ''id'' of
           None \<Rightarrow> None
         | Some k \<Rightarrow>
             let hit = (\<lambda>r. cell r k = IntV pid);
                 rows = map (\<lambda>r. if hit r then assign cols binds r else r) (products s)
             in if \<not> (\<forall>r \<in> set (products s). hit r \<longrightarrow> not_null_ok (assign cols binds r))
                then None
                else Some (length (filter hit (products s)), s\<lparr>products := rows\<rparr>)))"

definition sql_insert_inventory :: "store \<Rightarrow> int \<Rightarrow> int \<Rightarrow> string \<Rightarrow> string \<Rightarrow> store option" where
  \<comment> \<open>\<open>INSERT INTO inventory (product_id, quantity, location)\<close>, the timestamp being the
      column's default: None when UNIQUE(product_id, location) or the foreign key fails\<close>
  "sql_insert_inventory s pid qty loc now =
     (if \<not> int64 pid \<or> \<not> int64 qty then None
      else if \<exists>e \<in> set (inventory s). product_id e = pid \<and> location e = loc then None
      else if foreign_keys s \<and> pid \<notin> set (rowids s) then None
      else
        let iid = next_rowid (inventory_seq s) (map inv_id (inventory s)) in
        Some (s\<lparr>inventory := inventory s @
                    [\<lparr>inv_id = iid, product_id = pid, quantity = qty, location = loc,
                      last_updated = now\<rparr>],
                 inventory_seq := iid\<rparr>))"


section \<open>The views that write\<close>

definition column_info :: "store \<Rightarrow> string \<Rightarrow> string \<times> json list" where
  \<comment> \<open>\<open>dynamic_columns_info_dict.get(col_name, {})\<close> with the defaults \<open>'text'\<close> and \<open>[]\<close>\<close>
  "column_info s col_name =
     (case find (\<lambda>d. column_name d = col_name) (rev (stock_columns s)) of
        None \<Rightarrow> (''text'', [])
      | Some d \<Rightarrow> (column_type d, add_product_options (options d)))"

definition and_then :: "'b \<Rightarrow> error + 'b list \<Rightarrow> error + 'b list" where
  "and_then b r = (case r of Inl e \<Rightarrow> Inl e | Inr bs \<Rightarrow> Inr (b # bs))"

fun dynamic_values ::
  "store \<Rightarrow> (string \<times> string) list \<Rightarrow> string list \<Rightarrow> error + (string \<times> sqlval) list" where
  \<comment> \<open>the loop over the columns that are not reserved (lines 368-386 and 484-502)\<close>
  "dynamic_values s form [] = Inr []"
| "dynamic_values s form (col_name # cols) =
     (if col_name \<in> set reserved_names then dynamic_values s form cols
      else
        (case column_info s col_name of (col_type, col_options) \<Rightarrow>
           let v = strip (form_get form col_name) in
           if col_type = ''number'' then
             (if v = [] then and_then (col_name, Null) (dynamic_values s form cols)
              else
                (case py_float v of
                   None \<Rightarrow> Inl InvalidNumericValue
                 | Some f \<Rightarrow> and_then (col_name, RealV f) (dynamic_values s form cols)))
           else if col_type = ''select'' \<and> v \<noteq> [] \<and> pystr v \<notin> set col_options
           then Inl InvalidOption
           else and_then (col_name, TextV v) (dynamic_values s form cols)))"

definition display_ids :: "store \<Rightarrow> nat \<Rightarrow> int list" where
  \<comment> \<open>the integers in the column at position \<open>i\<close>; the column named \<open>user_product_id\<close>
      holds nothing else, since only \<open>add_product\<close> writes to it\<close>
  "display_ids s i = concat (map (\<lambda>r. case cell r i of IntV n \<Rightarrow> [n] | _ \<Rightarrow> []) (products s))"

definition add_product :: "store \<Rightarrow> (string \<times> string) list \<Rightarrow> string \<Rightarrow> response \<times> store" where
  "add_product s form now =
     (case col_index (product_columns s) ''user_product_id'' of
        None \<Rightarrow> (Err Unhandled, s)
      | Some i \<Rightarrow>
          let max_user_id = fold max (display_ids s i) 0;
              next_user_id = max_user_id + 1;
              name = strip (form_get form ''name'');
              price_str = strip (form_get form ''price'')
          in
          if name = [] then (Err EmptyName, s)
          else
            (case py_float price_str of
               None \<Rightarrow> (Err InvalidPrice, s)
             | Some price \<Rightarrow>
                 (case dynamic_values s form (product_columns s) of
                    Inl e \<Rightarrow> (Err e, s)
                  | Inr dyn \<Rightarrow>
                      (case sql_insert_product s
                              ([(''user_product_id'', IntV next_user_id), (''name'', TextV name),
                                (''price'', RealV price)] @ dyn) of
                         None \<Rightarrow> (Err DatabaseError, s)
                       | Some (pid, s1) \<Rightarrow>
                           (case sql_insert_inventory s1 pid 0 [] now of
                              None \<Rightarrow> (Err DatabaseError, s)
                            | Some s2 \<Rightarrow> (Ok, s2))))))"

definition delete_product :: "store \<Rightarrow> int \<Rightarrow> response \<times> store" where
  "delete_product s pid =
     (if \<not> int64 pid then (Err DatabaseError, s)
      else
        (case col_index (product_columns s) ''id'' of
           None \<Rightarrow> (Err DatabaseError, s)
         | Some k \<Rightarrow>
             let hit = (\<lambda>r. cell r k = IntV pid);
                 gone = concat (map (\<lambda>r. case cell r 0 of IntV n \<Rightarrow> [n] | _ \<Rightarrow> [])
                                  (filter hit (products s)))
             in if filter hit (products s) = [] then (Err ProductNotFound, s)
                else (Ok, s\<lparr>products := filter (\<lambda>r. \<not> hit r) (products s),
                            inventory := (if foreign_keys s
                                          then filter (\<lambda>e. product_id e \<notin> set gone) (inventory s)
                                          else inventory s)\<rparr>)))"

definition update_product :: "store \<Rightarrow> int \<Rightarrow> (string \<times> string) list \<Rightarrow> response \<times> store" where
  "update_product s pid form =
     (let name = strip (form_get form ''name'');
          price_str = strip (form_get form ''price'')
      in
      if name = [] then (Err EmptyName, s)
      else
        (case py_float price_str of
           None \<Rightarrow> (Err InvalidPrice, s)
         | Some price \<Rightarrow>
             (case dynamic_values s form (product_columns s) of
                Inl e \<Rightarrow> (Err e, s)
              | Inr dyn \<Rightarrow>
                  (case sql_update_product s
                          ([(''name'', TextV name), (''price'', RealV price)] @ dyn) pid of
                     None \<Rightarrow> (Err DatabaseError, s)
                   | Some (n, s1) \<Rightarrow> if 0 < n then (Ok, s1) else (Err ProductNotFound, s)))))"


definition insert_or_replace_visibility :: "store \<Rightarrow> int \<Rightarrow> string \<Rightarrow> int \<Rightarrow> store" where
  \<comment> \<open>\<open>INSERT OR REPLACE INTO user_column_visibility\<close>: UNIQUE(column_name) removes the
      row that has the name already\<close>
  "insert_or_replace_visibility s uid col vis =
     (let vid = next_rowid (visibility_seq s) (map vis_id (user_column_visibility s)) in
      s\<lparr>user_column_visibility :=
           filter (\<lambda>v. vis_column v \<noteq> col) (user_column_visibility s) @
             [\<lparr>vis_id = vid, user_id = uid, vis_column = col, is_visible = vis\<rparr>],
         visibility_seq := vid\<rparr>)"

definition insert_or_ignore_definition ::
  "store \<Rightarrow> string \<Rightarrow> string \<Rightarrow> string option \<Rightarrow> store" where
  \<comment> \<open>\<open>INSERT OR IGNORE INTO stock_columns\<close>: UNIQUE(column_name) keeps the row that has
      the name already\<close>
  "insert_or_ignore_definition s col ty opts =
     (if \<exists>d \<in> set (stock_columns s). column_name d = col then s
      else
        let did = next_rowid (stock_columns_seq s) (map def_id (stock_columns s)) in
        s\<lparr>stock_columns := stock_columns s @
             [\<lparr>def_id = did, column_name = col, column_type = ty, options = opts\<rparr>],
           stock_columns_seq := did\<rparr>)"

definition add_column :: "store \<Rightarrow> int \<Rightarrow> string \<Rightarrow> string \<Rightarrow> string \<Rightarrow> response \<times> store" where
  \<comment> \<open>the session's \<open>user_id\<close> and the form fields \<open>new_column\<close>, \<open>column_type\<close>,
      \<open>options_hidden_input\<close>\<close>
  "add_column s uid new_column col_type options_hidden_input =
     (let new_col_raw = strip new_column;
          options_raw = strip options_hidden_input
      in
      if new_col_raw = [] then (Err InvalidAttributeName, s)
      else
        let new_col = sanitize new_col_raw in
        if new_col = [] \<or> new_col \<in> set reserved_names then (Err InvalidAttributeName, s)
        else if col_type = ''select'' \<and> parse_options options_raw = [] then (Err EmptyOptionSet, s)
        else
          let options_json = (if col_type = ''select''
                              then Some (json_dumps (parse_options options_raw)) else None);
              existing_product_columns = map lower (product_columns s)
          in
          if new_col \<in> set existing_product_columns then (Err DuplicateAttribute, s)
          else if \<not> sql_identifier s new_col then (Err OperationalError, s)
          else
            let s1 = s\<lparr>product_columns := product_columns s @ [new_col],
                       products := map (\<lambda>r. r @ [TextV []]) (products s)\<rparr>;
                s2 = insert_or_ignore_definition s1 new_col col_type options_json
            in (Ok, insert_or_replace_visibility s2 uid new_col 1))"

definition rename_in :: "string list \<Rightarrow> string \<Rightarrow> string \<Rightarrow> string list" where
  \<comment> \<open>\<open>ALTER TABLE products RENAME COLUMN old TO new\<close> on the column names\<close>
  "rename_in cols old new =
     (case col_index cols old of None \<Rightarrow> cols | Some i \<Rightarrow> cols[i := new])"

definition rename_column :: "store \<Rightarrow> int \<Rightarrow> string \<Rightarrow> string \<Rightarrow> response \<times> store" where
  \<comment> \<open>the session's \<open>user_id\<close> and the form fields \<open>old_column_name\<close>, \<open>new_column_name\<close>\<close>
  "rename_column s uid old_column_name new_column_name =
     (let new_column_raw = strip new_column_name in
      if old_column_name = [] \<or> new_column_raw = [] then (Err MissingField, s)
      else
        let new_column_safe_name = sanitize new_column_raw in
        if new_column_safe_name = [] \<or> new_column_safe_name \<in> set reserved_names
        then (Err InvalidAttributeName, s)
        else
          let existing_columns = map lower (product_columns s) in
          if lower old_column_name \<notin> set existing_columns then (Err AttributeNotFound, s)
          else if new_column_safe_name \<in> set existing_columns then (Err DuplicateAttribute, s)
          else if \<not> (sql_identifier s old_column_name \<and> sql_identifier s new_column_safe_name \<and>
                         col_index (product_columns s) old_column_name \<noteq> None)
          then (Err OperationalError, s)
          else
            let s1 = s\<lparr>product_columns :=
                         rename_in (product_columns s) old_column_name new_column_safe_name\<rparr>;
                old_def = (\<lambda>d. column_name d = old_column_name);
                old_vis = (\<lambda>v. vis_column v = old_column_name \<and> user_id v = uid)
            in
            if (\<exists>d \<in> set (stock_columns s). old_def d) \<and>
               (\<exists>d \<in> set (stock_columns s). \<not> old_def d \<and> column_name d = new_column_safe_name)
            then (Err DatabaseError, s1)
            else if (\<exists>v \<in> set (user_column_visibility s). old_vis v) \<and>
                    (\<exists>v \<in> set (user_column_visibility s).
                        \<not> old_vis v \<and> vis_column v = new_column_safe_name)
            then (Err DatabaseError, s1)
            else
              (Ok, s1\<lparr>stock_columns :=
                        map (\<lambda>d. if old_def d then d\<lparr>column_name := new_column_safe_name\<rparr> else d)
                          (stock_columns s),
                      user_column_visibility :=
                        map (\<lambda>v. if old_vis v then v\<lparr>vis_column := new_column_safe_name\<rparr> else v)
                          (user_column_visibility s)\<rparr>))"

definition update_column_options :: "store \<Rightarrow> string \<Rightarrow> string \<Rightarrow> response \<times> store" where
  "update_column_options s col options_input =
     (let options_raw = strip options_input in
      if col = [] then (Err MissingField, s)
      else
        let options_json = json_dumps (parse_options options_raw) in
        (case find (\<lambda>d. column_name d = col) (stock_columns s) of
           None \<Rightarrow> (Err AttributeNotFound, s)
         | Some col_info \<Rightarrow>
             if column_type col_info \<noteq> ''select'' then (Err NotASelectAttribute, s)
             else (Ok, s\<lparr>stock_columns :=
                           map (\<lambda>d. if column_name d = col then d\<lparr>options := Some options_json\<rparr>
                                     else d) (stock_columns s)\<rparr>)))"

definition toggle_column_visibility :: "store \<Rightarrow> int \<Rightarrow> string \<Rightarrow> string \<Rightarrow> response \<times> store" where
  "toggle_column_visibility s uid col is_visible_field =
     (if col = [] then (Err MissingField, s)
      else if col \<in> set reserved_names then (Err ProtectedColumn, s)
      else (Ok, insert_or_replace_visibility s uid col
                  (if is_visible_field = ''true'' then 1 else 0)))"

definition update_inventory ::
  "store \<Rightarrow> string \<Rightarrow> string \<Rightarrow> string \<Rightarrow> string \<Rightarrow> string \<Rightarrow> response \<times> store" where
  \<comment> \<open>the form fields \<open>product_id\<close>, \<open>inventory_id\<close>, \<open>quantity\<close>, \<open>location\<close> (a missing
      field and an empty one take the same branches), and the clock\<close>
  "update_inventory s product_id_field inventory_id_field quantity_str location_field now =
     (let loc = strip location_field in
      if product_id_field = [] \<or> quantity_str = [] then (Err MissingField, s)
      else
        (case py_int product_id_field of
           None \<Rightarrow> (Err InvalidFormat, s)
         | Some pid \<Rightarrow>
             (case py_int quantity_str of
                None \<Rightarrow> (Err InvalidFormat, s)
              | Some qty \<Rightarrow>
                  if qty < 0 then (Err NegativeQuantity, s)
                  else if inventory_id_field \<noteq> [] \<and> inventory_id_field \<noteq> ''None'' then
                    (case py_int inventory_id_field of
                       None \<Rightarrow> (Err DatabaseError, s)
                     | Some iid \<Rightarrow>
                         let hit = (\<lambda>e. inv_id e = iid \<and> product_id e = pid) in
                         if \<not> (int64 qty \<and> int64 iid \<and> int64 pid) then (Err DatabaseError, s)
                         else if \<not> (\<exists>e \<in> set (inventory s). hit e) then (Err EntryNotFound, s)
                         else if \<exists>e \<in> set (inventory s).
                                   \<not> hit e \<and> product_id e = pid \<and> location e = loc
                         then (Err DuplicateLocation, s)
                         else (Ok, s\<lparr>inventory :=
                                       map (\<lambda>e. if hit e
                                                 then e\<lparr>quantity := qty, location := loc,
                                                        last_updated := now\<rparr>
                                                 else e) (inventory s)\<rparr>))
                  else if \<not> (int64 pid \<and> int64 qty) then (Err DatabaseError, s)
                  else if foreign_keys s \<and> pid \<notin> set (rowids s) then (Err DuplicateLocation, s)
                  else
                    let iid = next_rowid (inventory_seq s) (map inv_id (inventory s)) in
                    (Ok, s\<lparr>inventory :=
                             filter (\<lambda>e. \<not> (product_id e = pid \<and> location e = loc)) (inventory s) @
                               [\<lparr>inv_id = iid, product_id = pid, quantity = qty, location = loc,
                                 last_updated = now\<rparr>],
                           inventory_seq := iid\<rparr>))))"

definition delete_inventory_entry :: "store \<Rightarrow> int \<Rightarrow> response \<times> store" where
  "delete_inventory_entry s iid =
     (if \<not> int64 iid then (Err DatabaseError, s)
      else (Ok, s\<lparr>inventory := filter (\<lambda>e. inv_id e \<noteq> iid) (inventory s)\<rparr>))"


section \<open>The inventory listing\<close>

fun like_match :: "string \<Rightarrow> string \<Rightarrow> bool" where
  \<comment> \<open>SQLite's LIKE: \<open>%\<close> is any text, \<open>_\<close> any character, ASCII letters without case\<close>
  "like_match [] t = (t = [])"
| "like_match (p # ps) t =
     (if p = CHR ''%'' then
        like_match ps t \<or> (case t of [] \<Rightarrow> False | c # cs \<Rightarrow> like_match (p # ps) cs)
      else (case t of
              [] \<Rightarrow> False
            | c # cs \<Rightarrow> (p = CHR ''_'' \<or> sql_lower_char p = sql_lower_char c) \<and> like_match ps cs))"

record entry =
  inventory_id :: "int option"
  entry_quantity :: int
  entry_location :: string
  entry_last_updated :: string

definition placeholder :: entry where
  "placeholder =
     \<lparr>inventory_id = None, entry_quantity = 0, entry_location = [],
      entry_last_updated = ''N/A''\<rparr>"

definition entry_of :: "inv_row \<Rightarrow> entry" where
  "entry_of e =
     \<lparr>inventory_id = Some (inv_id e), entry_quantity = quantity e,
      entry_location = location e, entry_last_updated = last_updated e\<rparr>"

definition inventory_entries_of :: "store \<Rightarrow> sqlval \<Rightarrow> string \<Rightarrow> inv_row list" where
  \<comment> \<open>the query of lines 775-793 for one product and the stripped location filter\<close>
  "inventory_entries_of s pid location_filter =
     sort_key (\<lambda>e. map of_char (location e) :: nat list)
       (filter (\<lambda>e. IntV (product_id e) = pid \<and>
                     (location_filter = [] \<or> location e = location_filter))
          (inventory s))"

definition envanter_listesi ::
  "store \<Rightarrow> string \<Rightarrow> string \<Rightarrow> error + (sqlval list \<times> entry list) list" where
  \<comment> \<open>the query arguments \<open>product_name_filter\<close> and \<open>location_filter\<close>; the result is
      \<open>product_inventory_data\<close>: id, user_product_id, name and price of each product,
      with its \<open>inventory_entries\<close>\<close>
  "envanter_listesi s name_arg location_arg =
     (let product_name_filter = strip name_arg;
          location_filter = strip location_arg;
          cols = product_columns s
      in
      (case (col_index cols ''id'', col_index cols ''user_product_id'',
             col_index cols ''name'', col_index cols ''price'') of
         (Some i, Some u, Some n, Some p) \<Rightarrow>
           let found = filter (\<lambda>r. product_name_filter = [] \<or>
                                    (case cell r n of
                                       TextV t \<Rightarrow> like_match (''%'' @ product_name_filter @ ''%'') t
                                     | _ \<Rightarrow> False))
                         (products s);
               ordered = sort_key (\<lambda>r. case cell r u of IntV k \<Rightarrow> k | _ \<Rightarrow> 0) found
           in Inr (concat (map (\<lambda>product.
                     let inventory_entries =
                           inventory_entries_of s (cell product i) location_filter
                     in if inventory_entries = [] \<and> location_filter \<noteq> [] then []
                        else [(map (cell product) [i, u, n, p],
                               if inventory_entries = [] then [placeholder]
                               else map entry_of inventory_entries)])
                   ordered))
       | _ \<Rightarrow> Inl Unhandled))"


section \<open>Requests and reachable stores\<close>

datatype request =
    AddColumn int string string string
  | AddProduct "(string \<times> string) list" string
  | DeleteProduct int
  | UpdateProduct int "(string \<times> string) list"
  | RenameColumn int string string
  | UpdateColumnOptions string string
  | ToggleColumnVisibility int string string
  | UpdateInventory string string string string string
  | DeleteInventoryEntry int

fun handle :: "store \<Rightarrow> request \<Rightarrow> response \<times> store" where
  "handle s (AddColumn uid c t opts) = add_column s uid c t opts"
| "handle s (AddProduct form now) = add_product s form now"
| "handle s (DeleteProduct pid) = delete_product s pid"
| "handle s (UpdateProduct pid form) = update_product s pid form"
| "handle s (RenameColumn uid old new) = rename_column s uid old new"
| "handle s (UpdateColumnOptions c opts) = update_column_options s c opts"
| "handle s (ToggleColumnVisibility uid c v) = toggle_column_visibility s uid c v"
| "handle s (UpdateInventory p i q l now) = update_inventory s p i q l now"
| "handle s (DeleteInventoryEntry iid) = delete_inventory_entry s iid"

inductive reachable :: "store \<Rightarrow> bool" where
  init: "reachable (init_stock_table fk reserved)"
| step: "reachable s \<Longrightarrow> reachable (snd (handle s r))"

fun run :: "store \<Rightarrow> request list \<Rightarrow> store" where
  \<comment> \<open>the store after a sequence of requests\<close>
  "run s [] = s"
| "run s (r # rs) = run (snd (handle s r)) rs"


section \<open>What the statements do to the store\<close>

lemma length_assign [simp]: "length (assign cols bs row) = length row"
  by (induction bs arbitrary: row) (auto split: option.splits)

lemma length_default_row [simp]: "length (default_row n) = n"
  by (simp add: default_row_def)

lemma takeWhile_less: "x \<in> set xs \<Longrightarrow> \<not> P x \<Longrightarrow> length (takeWhile P xs) < length xs"
  by (induction xs) auto

lemma col_index_less: "col_index cols c = Some i \<Longrightarrow> i < length cols"
  by (auto simp: col_index_def split: if_splits intro: takeWhile_less)

lemma sql_insert_product_effect:
  assumes "sql_insert_product s binds = Some (pid, s1)"
  shows "\<exists>row. products s1 = products s @ [row] \<and> 3 < length row \<and> row ! 0 = IntV pid
           \<and> length row = length (product_columns s)"
    and "product_columns s1 = product_columns s" and "inventory s1 = inventory s"
    and "inventory_seq s1 = inventory_seq s" and "stock_columns s1 = stock_columns s"
    and "user_column_visibility s1 = user_column_visibility s"
    and "foreign_keys s1 = foreign_keys s" and "sql_reserved s1 = sql_reserved s"
    and "stock_columns_seq s1 = stock_columns_seq s" and "visibility_seq s1 = visibility_seq s"
  using assms
  by (auto simp: sql_insert_product_def Let_def cell_def not_null_ok_def
           split: if_splits option.splits)

lemma sql_insert_inventory_effect:
  assumes "sql_insert_inventory s pid q loc now = Some s2"
  shows "s2 = s\<lparr>inventory := inventory s @
                    [\<lparr>inv_id = next_rowid (inventory_seq s) (map inv_id (inventory s)),
                      product_id = pid, quantity = q, location = loc,
                      last_updated = now\<rparr>],
                 inventory_seq := next_rowid (inventory_seq s) (map inv_id (inventory s))\<rparr>"
   and "\<forall>e \<in> set (inventory s). \<not> (product_id e = pid \<and> location e = loc)"
  using assms
  by (auto simp: sql_insert_inventory_def Let_def split: if_splits)

lemma add_product_cases:
  assumes "add_product s form now = (r, s')"
  shows "(r \<noteq> Ok \<and> s' = s) \<or>
         (r = Ok \<and> (\<exists>binds pid s1. sql_insert_product s binds = Some (pid, s1)
                      \<and> sql_insert_inventory s1 pid 0 [] now = Some s'))"
  using assms
  by (auto simp: add_product_def Let_def split: option.splits sum.splits if_splits prod.splits)

definition fresh_store :: store where
  \<comment> \<open>a new tenant's store, for the examples\<close>
  "fresh_store = init_stock_table False []"

definition widget :: "(string \<times> string) list" where
  "widget = [(''name'', ''Widget''), (''price'', ''9.99'')]"


section \<open>Creating a product is all or nothing\<close>

text \<open>
  Claim C5. \<open>add_product\<close> writes the product row and then its default inventory row
  and commits once. When it succeeds, the store has gained exactly the new product row
  and one inventory row for it, with the empty location and quantity 0; when it fails,
  at whatever point, the store is what it was: no product row stays without its
  inventory row.
\<close>

theorem add_product_atomic:
  assumes "add_product s form now = (r, s')"
  shows "(r = Ok \<and> (\<exists>row pid iid. products s' = products s @ [row] \<and> cell row 0 = IntV pid \<and>
            inventory s' = inventory s @
              [\<lparr>inv_id = iid, product_id = pid, quantity = 0, location = [],
                last_updated = now\<rparr>]))
         \<or> (r \<noteq> Ok \<and> s' = s)"
proof -
  from add_product_cases [OF assms] show ?thesis
  proof
    assume "r \<noteq> Ok \<and> s' = s"
    then show ?thesis by simp
  next
    assume "r = Ok \<and> (\<exists>binds pid s1. sql_insert_product s binds = Some (pid, s1)
                      \<and> sql_insert_inventory s1 pid 0 [] now = Some s')"
    then obtain binds pid s1 where ok: "r = Ok"
      and p: "sql_insert_product s binds = Some (pid, s1)"
      and i: "sql_insert_inventory s1 pid 0 [] now = Some s'" by blast
    from sql_insert_product_effect(1) [OF p] obtain row where
      row: "products s1 = products s @ [row]" "3 < length row" "row ! 0 = IntV pid" by blast
    have inv1: "inventory s1 = inventory s" by (rule sql_insert_product_effect(3) [OF p])
    from sql_insert_inventory_effect(1) [OF i]
    have "products s' = products s1" and
      "inventory s' = inventory s1 @
         [\<lparr>inv_id = next_rowid (inventory_seq s1) (map inv_id (inventory s1)), product_id = pid,
           quantity = 0, location = [], last_updated = now\<rparr>]"
      by simp_all
    with row inv1 ok show ?thesis by (auto simp: cell_def)
  qed
qed

text \<open>
  The scenario of the specification on a new store, and a failure after the first
  write: an inventory row for product 1 and the empty location is there before the
  product is, so the second insert breaks UNIQUE(product_id, location).
\<close>

theorem add_product_atomic_witness:
  "(\<exists>row pid iid.
      products (snd (add_product fresh_store widget ''t'')) = products fresh_store @ [row] \<and>
      cell row 0 = IntV pid \<and>
      inventory (snd (add_product fresh_store widget ''t'')) = inventory fresh_store @
        [\<lparr>inv_id = iid, product_id = pid, quantity = 0, location = [], last_updated = ''t''\<rparr>])
   \<and> products (snd (add_product fresh_store widget ''t'')) =
        [[IntV 1, IntV 1, TextV ''Widget'', RealV (Dec 999 (- 2))]]
   \<and> add_product (snd (update_inventory fresh_store ''1'' [] ''5'' [] ''t'')) widget ''u'' =
        (Err DatabaseError, snd (update_inventory fresh_store ''1'' [] ''5'' [] ''t''))"
proof -
  have ok: "fst (add_product fresh_store widget ''t'') = Ok" by code_simp
  have a: "add_product fresh_store widget ''t'' =
           (fst (add_product fresh_store widget ''t''), snd (add_product fresh_store widget ''t''))"
    by simp
  have 1: "\<exists>row pid iid.
      products (snd (add_product fresh_store widget ''t'')) = products fresh_store @ [row] \<and>
      cell row 0 = IntV pid \<and>
      inventory (snd (add_product fresh_store widget ''t'')) = inventory fresh_store @
        [\<lparr>inv_id = iid, product_id = pid, quantity = 0, location = [], last_updated = ''t''\<rparr>]"
    using add_product_atomic [OF a] ok by simp
  have 2: "products (snd (add_product fresh_store widget ''t'')) =
        [[IntV 1, IntV 1, TextV ''Widget'', RealV (Dec 999 (- 2))]]"
    by code_simp
  have 3: "add_product (snd (update_inventory fresh_store ''1'' [] ''5'' [] ''t'')) widget ''u'' =
        (Err DatabaseError, snd (update_inventory fresh_store ''1'' [] ''5'' [] ''t''))"
    by code_simp
  from 1 2 3 show ?thesis by blast
qed


section \<open>The option list survives its serialisation\<close>















lemma split_on_not_Nil [simp]: "split_on d s \<noteq> []"
  by (induction s) (auto split: list.splits)

lemma split_on_Cons_other:
  "c \<noteq> d \<Longrightarrow> split_on d (c # s) = (c # hd (split_on d s)) # tl (split_on d s)"
  using split_on_not_Nil [of d s] by (cases "split_on d s") auto


















section \<open>The shape of a reachable store\<close>


definition base_columns :: "string list" where
  "base_columns = [''id'', ''user_product_id'', ''name'', ''price'']"

definition cols_ok :: "string list \<Rightarrow> bool" where
  "cols_ok cols =
     (4 \<le> length cols \<and> (\<forall>c \<in> set cols. lower c = c) \<and> distinct cols \<and>
      (\<forall>j < length cols. cols ! j \<in> set reserved_names \<longrightarrow> j < 4 \<and> cols ! j = base_columns ! j))"

definition names_ok :: "store \<Rightarrow> bool" where
  "names_ok s =
     ((\<forall>d \<in> set (stock_columns s). column_name d \<notin> set reserved_names) \<and>
      (\<forall>v \<in> set (user_column_visibility s). vis_column v \<notin> set reserved_names))"

definition inv_ok :: "store \<Rightarrow> bool" where
  "inv_ok s =
     (distinct (map (\<lambda>e. (product_id e, location e)) (inventory s)) \<and>
      distinct (map inv_id (inventory s)))"

lemma lower_char_idem [simp]: "lower_char (lower_char c) = lower_char c"
  by (auto simp: lower_char_def is_upper_def Let_def)

lemma lower_idem [simp]: "lower (lower s) = lower s"
  by (simp add: lower_def)

lemma lower_sanitize [simp]: "lower (sanitize x) = sanitize x"
  by (simp add: sanitize_def)

lemma cols_ok_init: "cols_ok (product_columns (init_stock_table fk rs))"
  by (simp add: cols_ok_def init_stock_table_def base_columns_def reserved_names_def
        lower_def lower_char_def is_upper_def less_Suc_eq nth_Cons')

lemma sql_lower_char_fixed: "lower_char c = c \<Longrightarrow> sql_lower_char c = c"
proof (rule ccontr)
  assume a: "lower_char c = c" and b: "sql_lower_char c \<noteq> c"
  from b have u: "65 \<le> (of_char c :: nat) \<and> (of_char c :: nat) \<le> 90"
    by (auto simp: sql_lower_char_def Let_def split: if_splits)
  then have "is_upper c" by (simp add: is_upper_def)
  with a have "char_of ((of_char c :: nat) + 32) = c" by (simp add: lower_char_def)
  then have "(of_char (char_of ((of_char c :: nat) + 32)) :: nat) = of_char c" by simp
  with u show False by simp
qed

lemma sql_lower_fixed: "lower c = c \<Longrightarrow> sql_lower c = c"
  unfolding lower_def sql_lower_def
  by (induction c) (auto simp: sql_lower_char_fixed)

lemma set_sql_lower_cols: "\<forall>c \<in> set cols. lower c = c \<Longrightarrow> map sql_lower cols = cols"
  by (induction cols) (auto simp: sql_lower_fixed)

lemma set_lower_cols: "\<forall>c \<in> set cols. lower c = c \<Longrightarrow> map lower cols = cols"
  by (induction cols) auto

lemma cols_ok_append:
  assumes "cols_ok cols" "lower n = n" "n \<notin> set (map lower cols)" "n \<notin> set reserved_names"
  shows "cols_ok (cols @ [n])"
proof -
  have m: "map lower cols = cols" using assms(1) by (simp add: cols_ok_def set_lower_cols)
  show ?thesis using assms unfolding cols_ok_def m
    by (auto simp: nth_append less_Suc_eq)
qed

lemma cols_ok_update:
  assumes "cols_ok cols" "lower n = n" "n \<notin> set (map lower cols)" "n \<notin> set reserved_names"
  shows "cols_ok (cols[i := n])"
proof (cases "i < length cols")
  case False
  then have "cols[i := n] = cols" by (intro list_update_beyond) arith
  then show ?thesis using assms(1) by simp
next
  case True
  have m: "map lower cols = cols" using assms(1) by (simp add: cols_ok_def set_lower_cols)
  have d: "distinct (cols[i := n])" using assms unfolding cols_ok_def m
    by (simp add: distinct_list_update)
  have s: "set (cols[i := n]) \<subseteq> insert n (set cols)" by (rule set_update_subset_insert)
  show ?thesis using assms d s True unfolding cols_ok_def m
    by (auto simp: nth_list_update)
qed

lemma add_column_columns:
  "product_columns (snd (add_column s uid c t opts)) = product_columns s \<or>
   (product_columns (snd (add_column s uid c t opts)) = product_columns s @ [sanitize (strip c)] \<and>
    sanitize (strip c) \<notin> set (map lower (product_columns s)) \<and>
    sanitize (strip c) \<notin> set reserved_names)"
  by (auto simp: add_column_def Let_def insert_or_ignore_definition_def
        insert_or_replace_visibility_def)

lemma rename_column_columns:
  "product_columns (snd (rename_column s uid old new)) = product_columns s \<or>
   (\<exists>i. product_columns (snd (rename_column s uid old new)) =
        (product_columns s)[i := sanitize (strip new)] \<and>
    sanitize (strip new) \<notin> set (map lower (product_columns s)) \<and>
    sanitize (strip new) \<notin> set reserved_names)"
  by (auto simp: rename_column_def Let_def rename_in_def split: option.splits)

lemma other_columns:
  "product_columns (snd (add_product s form now)) = product_columns s"
  "product_columns (snd (delete_product s pid)) = product_columns s"
  "product_columns (snd (update_product s pid form)) = product_columns s"
  "product_columns (snd (update_column_options s c opts)) = product_columns s"
  "product_columns (snd (toggle_column_visibility s uid c v)) = product_columns s"
  "product_columns (snd (update_inventory s p i q l now)) = product_columns s"
  "product_columns (snd (delete_inventory_entry s iid)) = product_columns s"
proof -
  obtain r s' where a: "add_product s form now = (r, s')" by (cases "add_product s form now")
  from add_product_cases [OF a] show "product_columns (snd (add_product s form now)) = product_columns s"
    using a by (auto dest!: sql_insert_product_effect(2) sql_insert_inventory_effect(1))
qed (auto simp: delete_product_def update_product_def sql_update_product_def
      update_column_options_def toggle_column_visibility_def insert_or_replace_visibility_def
      update_inventory_def delete_inventory_entry_def Let_def
      split: option.splits sum.splits prod.splits if_splits)

lemma reachable_cols_ok: "reachable s \<Longrightarrow> cols_ok (product_columns s)"
proof (induction rule: reachable.induct)
  case (init fk reserved)
  show ?case by (rule cols_ok_init)
next
  case (step s r)
  show ?case
  proof (cases r)
    case (AddColumn uid c t opts)
    then show ?thesis using add_column_columns [of s uid c t opts] step.IH
      by (auto intro!: cols_ok_append simp del: set_map)
  next
    case (RenameColumn uid old new)
    then show ?thesis using rename_column_columns [of s uid old new] step.IH
      by (auto intro!: cols_ok_update simp del: set_map)
  qed (simp_all add: other_columns step.IH)
qed

lemma col_index_nth:
  assumes "col_index cols c = Some i"
  shows "i < length cols" and "sql_lower (cols ! i) = sql_lower c"
proof -
  from assms have m: "sql_lower c \<in> set (map sql_lower cols)"
    and i: "i = length (takeWhile (\<lambda>x. sql_lower x \<noteq> sql_lower c) cols)"
    by (auto simp: col_index_def split: if_splits)
  from m have "length (takeWhile (\<lambda>x. sql_lower x \<noteq> sql_lower c) cols) < length cols"
    by (auto intro: takeWhile_less)
  then show "i < length cols" using i by simp
  then show "sql_lower (cols ! i) = sql_lower c"
    using nth_length_takeWhile [of "\<lambda>x. sql_lower x \<noteq> sql_lower c" cols] i by auto
qed

lemma col_index_same:
  "col_index cols a = Some i \<Longrightarrow> col_index cols b = Some i \<Longrightarrow> sql_lower a = sql_lower b"
  using col_index_nth(2) by metis

lemma display_column:
  assumes "cols_ok cols" "col_index cols ''user_product_id'' = Some i"
  shows "i = 1" and "cols ! 1 = ''user_product_id''"
proof -
  have l: "sql_lower ''user_product_id'' = ''user_product_id''"
    by (simp add: sql_lower_def sql_lower_char_def)
  from col_index_nth [OF assms(2)] have i: "i < length cols"
    and n: "sql_lower (cols ! i) = ''user_product_id''" by (simp_all add: l)
  from assms(1) i have "sql_lower (cols ! i) = cols ! i" by (simp add: cols_ok_def sql_lower_fixed)
  with n have e: "cols ! i = ''user_product_id''" by simp
  then have "cols ! i \<in> set reserved_names" by (simp add: reserved_names_def)
  with assms(1) i have "i < 4" and "cols ! i = base_columns ! i" by (auto simp: cols_ok_def)
  with e show "i = 1" by (auto simp: base_columns_def less_Suc_eq numeral_eq_Suc)
  with e show "cols ! 1 = ''user_product_id''" by simp
qed

lemma assign_other:
  "\<forall>b \<in> set bs. col_index cols (fst b) \<noteq> Some i \<Longrightarrow> assign cols bs row ! i = row ! i"
  by (induction bs arbitrary: row) (auto split: option.splits)

lemma and_then_Inr: "and_then b r = Inr bs \<Longrightarrow> \<exists>bs'. r = Inr bs' \<and> bs = b # bs'"
  by (cases r) (auto simp: and_then_def)

lemma dynamic_values_names:
  "dynamic_values s form cs = Inr bs \<Longrightarrow> fst ` set bs \<subseteq> set cs - set reserved_names"
proof (induction cs arbitrary: bs)
  case Nil
  then show ?case by simp
next
  case (Cons c cs)
  show ?case
  proof (cases "c \<in> set reserved_names")
    case True
    with Cons show ?thesis by auto
  next
    case False
    with Cons.prems obtain v bs' where "dynamic_values s form cs = Inr bs'" "bs = (c, v) # bs'"
      by (auto simp: Let_def split: prod.splits if_splits option.splits dest!: and_then_Inr)
    with Cons.IH False show ?thesis by auto
  qed
qed

lemma sql_insert_product_row:
  assumes "sql_insert_product s binds = Some (pid, s1)"
  shows "products s1 = products s @
           [(assign (product_columns s) binds (default_row (length (product_columns s))))
              [0 := IntV pid]]"
  using assms
  by (auto simp: sql_insert_product_def Let_def split: if_splits option.splits)

lemma add_product_ok:
  assumes "add_product s form now = (Ok, s')"
  shows "\<exists>i price dyn pid s1.
           col_index (product_columns s) ''user_product_id'' = Some i \<and>
           strip (form_get form ''name'') \<noteq> [] \<and>
           py_float (strip (form_get form ''price'')) = Some price \<and>
           dynamic_values s form (product_columns s) = Inr dyn \<and>
           sql_insert_product s
             ([(''user_product_id'', IntV (fold max (display_ids s i) 0 + 1)),
               (''name'', TextV (strip (form_get form ''name''))),
               (''price'', RealV price)] @ dyn) = Some (pid, s1) \<and>
           sql_insert_inventory s1 pid 0 [] now = Some s'"
  using assms
  by (auto simp: add_product_def Let_def split: option.splits sum.splits if_splits prod.splits)

lemma fold_max_Max: "fold max xs (0::int) = Max (insert 0 (set xs))"
  using Max.set_eq_fold [of 0 xs] by simp

lemma display_ids_append [simp]:
  "display_ids (s\<lparr>products := rows @ [row]\<rparr>) i =
   display_ids (s\<lparr>products := rows\<rparr>) i @ (case cell row i of IntV n \<Rightarrow> [n] | _ \<Rightarrow> [])"
  by (simp add: display_ids_def)

lemma reachable_run: "reachable s \<Longrightarrow> reachable (run s rs)"
  by (induction rs arbitrary: s) (auto intro: reachable.step)

lemma names_after_add_column:
  "names_ok s \<Longrightarrow> names_ok (snd (add_column s uid c t opts))"
  by (auto simp: names_ok_def add_column_def Let_def insert_or_ignore_definition_def
        insert_or_replace_visibility_def)

lemma names_after_rename_column:
  "names_ok s \<Longrightarrow> names_ok (snd (rename_column s uid old new))"
  by (auto simp: names_ok_def rename_column_def Let_def)

lemma names_after_update_column_options:
  "names_ok s \<Longrightarrow> names_ok (snd (update_column_options s c opts))"
  by (auto simp: names_ok_def update_column_options_def Let_def split: option.splits)

lemma names_after_toggle:
  "names_ok s \<Longrightarrow> names_ok (snd (toggle_column_visibility s uid c v))"
  by (auto simp: names_ok_def toggle_column_visibility_def insert_or_replace_visibility_def Let_def)

lemma add_product_frame:
  "stock_columns (snd (add_product s form now)) = stock_columns s"
  "user_column_visibility (snd (add_product s form now)) = user_column_visibility s"
  "foreign_keys (snd (add_product s form now)) = foreign_keys s"
  "sql_reserved (snd (add_product s form now)) = sql_reserved s"
proof -
  obtain r s' where a: "add_product s form now = (r, s')" by (cases "add_product s form now")
  have "stock_columns s' = stock_columns s \<and> user_column_visibility s' = user_column_visibility s
        \<and> foreign_keys s' = foreign_keys s \<and> sql_reserved s' = sql_reserved s"
    using add_product_cases [OF a]
  proof
    assume "r \<noteq> Ok \<and> s' = s" then show ?thesis by simp
  next
    assume "r = Ok \<and> (\<exists>binds pid s1. sql_insert_product s binds = Some (pid, s1)
                      \<and> sql_insert_inventory s1 pid 0 [] now = Some s')"
    then obtain binds pid s1 where p: "sql_insert_product s binds = Some (pid, s1)"
      and i: "sql_insert_inventory s1 pid 0 [] now = Some s'" by blast
    show ?thesis
      using sql_insert_product_effect(5,6,7,8) [OF p] sql_insert_inventory_effect(1) [OF i]
      by simp
  qed
  with a show "stock_columns (snd (add_product s form now)) = stock_columns s"
    "user_column_visibility (snd (add_product s form now)) = user_column_visibility s"
    "foreign_keys (snd (add_product s form now)) = foreign_keys s"
    "sql_reserved (snd (add_product s form now)) = sql_reserved s" by simp_all
qed

lemma names_unchanged:
  "stock_columns (snd (delete_product s pid)) = stock_columns s"
  "user_column_visibility (snd (delete_product s pid)) = user_column_visibility s"
  "stock_columns (snd (update_product s pid form)) = stock_columns s"
  "user_column_visibility (snd (update_product s pid form)) = user_column_visibility s"
  "stock_columns (snd (update_inventory s p i q l now)) = stock_columns s"
  "user_column_visibility (snd (update_inventory s p i q l now)) = user_column_visibility s"
  "stock_columns (snd (delete_inventory_entry s iid)) = stock_columns s"
  "user_column_visibility (snd (delete_inventory_entry s iid)) = user_column_visibility s"
  by (auto simp: delete_product_def update_product_def sql_update_product_def
      update_inventory_def delete_inventory_entry_def Let_def
      split: option.splits sum.splits prod.splits if_splits)

lemma reachable_names_ok: "reachable s \<Longrightarrow> names_ok s"
proof (induction rule: reachable.induct)
  case (init fk reserved)
  show ?case by (simp add: names_ok_def init_stock_table_def)
next
  case (step s r)
  then show ?case
    by (cases r)
       (simp_all add: names_after_add_column names_after_rename_column
          names_after_update_column_options names_after_toggle,
        simp_all add: names_ok_def names_unchanged add_product_frame)
qed

section \<open>Display identifiers\<close>

text \<open>
  Claim C1, as amended. In every store the application can reach, a product that
  \<open>add_product\<close> creates gets as display identifier one more than the largest display
  identifier among the products that are in the store at that moment (1 when there is
  none): column 1 is \<open>user_product_id\<close>, the new row is appended with that value there,
  and the value is greater than the display identifier of every product present. So an
  identifier is not reused while a product with a larger or equal one exists; nothing
  is remembered of the identifiers of deleted products.
\<close>

theorem display_id_assigned:
  assumes "reachable s" and "add_product s form now = (Ok, s')"
  shows "product_columns s ! 1 = ''user_product_id'' \<and>
         (\<exists>row. products s' = products s @ [row] \<and>
            cell row 1 = IntV (Max (insert 0 (set (display_ids s 1))) + 1) \<and>
            (\<forall>k \<in> set (display_ids s 1). k < Max (insert 0 (set (display_ids s 1))) + 1))"
proof -
  let ?cols = "product_columns s"
  have ok: "cols_ok ?cols" by (rule reachable_cols_ok [OF assms(1)])
  from add_product_ok [OF assms(2)] obtain i price dyn pid s1 where
    i: "col_index ?cols ''user_product_id'' = Some i"
    and dyn: "dynamic_values s form ?cols = Inr dyn"
    and ins: "sql_insert_product s
             ([(''user_product_id'', IntV (fold max (display_ids s i) 0 + 1)),
               (''name'', TextV (strip (form_get form ''name''))),
               (''price'', RealV price)] @ dyn) = Some (pid, s1)"
    and inv: "sql_insert_inventory s1 pid 0 [] now = Some s'" by blast
  from display_column [OF ok i] have i1: "i = 1" and c1: "?cols ! 1 = ''user_product_id''" by simp_all
  let ?n = "fold max (display_ids s 1) 0 + 1"
  let ?rest = "[(''name'', TextV (strip (form_get form ''name''))), (''price'', RealV price)] @ dyn"
  let ?row0 = "default_row (length ?cols)"
  have len: "4 \<le> length ?cols" using ok by (simp add: cols_ok_def)
  have other: "\<forall>b \<in> set ?rest. col_index ?cols (fst b) \<noteq> Some 1"
  proof
    fix b assume b: "b \<in> set ?rest"
    show "col_index ?cols (fst b) \<noteq> Some 1"
    proof
      assume e: "col_index ?cols (fst b) = Some 1"
      from col_index_nth(2) [OF e] c1 have l: "sql_lower (fst b) = sql_lower ''user_product_id''" by simp
      from b consider "fst b = ''name''" | "fst b = ''price''" | "fst b \<in> fst ` set dyn" by auto
      then show False
      proof cases
        case 1 with l show False by (simp add: sql_lower_def sql_lower_char_def)
      next
        case 2 with l show False by (simp add: sql_lower_def sql_lower_char_def)
      next
        case 3
        with dynamic_values_names [OF dyn] have m: "fst b \<in> set ?cols" and r: "fst b \<notin> set reserved_names"
          by auto
        from m ok have "sql_lower (fst b) = fst b" by (simp add: cols_ok_def sql_lower_fixed)
        with l have "fst b = ''user_product_id''" by (simp add: sql_lower_def sql_lower_char_def)
        with r show False by (simp add: reserved_names_def)
      qed
    qed
  qed
  have "assign ?cols ((''user_product_id'', IntV ?n) # ?rest) ?row0 ! 1 =
        (?row0[1 := bind (IntV ?n)]) ! 1"
    using i i1 assign_other [OF other] by simp
  also have "\<dots> = IntV ?n" using len by (simp add: bind_def)
  finally have cell1: "assign ?cols ((''user_product_id'', IntV ?n) # ?rest) ?row0 ! 1 = IntV ?n" .
  define r where "r = assign ?cols ((''user_product_id'', IntV ?n) # ?rest) ?row0"
  have r1: "r ! 1 = IntV ?n" unfolding r_def by (rule cell1)
  have lr: "length r = length ?cols" unfolding r_def by (simp only: length_assign length_default_row)
  have bs: "[(''user_product_id'', IntV (fold max (display_ids s i) 0 + 1)),
             (''name'', TextV (strip (form_get form ''name''))), (''price'', RealV price)] @ dyn =
            (''user_product_id'', IntV ?n) # ?rest"
    using i1 by simp
  have p1: "products s1 = products s @ [r[0 := IntV pid]]"
    using sql_insert_product_row [OF ins] unfolding bs r_def .
  have p2: "products s' = products s1" using sql_insert_inventory_effect(1) [OF inv] by simp
  have c: "cell (r[0 := IntV pid]) 1 = IntV ?n" using r1 lr len by (simp add: cell_def)
  have lt: "\<forall>k \<in> set (display_ids s 1). k < Max (insert 0 (set (display_ids s 1))) + 1"
    by (auto simp: less_Suc_eq_le intro!: le_imp_less_Suc Max_ge [THEN order_trans])
  show ?thesis using c1 p1 p2 c lt by (auto simp: fold_max_Max)
qed

definition three_products :: "request list" where
  "three_products =
     [AddProduct [(''name'', ''A''), (''price'', ''1'')] ''t1'',
      AddProduct [(''name'', ''B''), (''price'', ''2'')] ''t2'',
      AddProduct [(''name'', ''C''), (''price'', ''3'')] ''t3'']"

text \<open>
  Three products in a row get 1, 2, 3; after product 2 is deleted the next one gets 4.
\<close>

theorem display_id_assigned_witness:
  "display_ids (run fresh_store three_products) 1 = [1, 2, 3] \<and>
   display_ids (run fresh_store (three_products @ [DeleteProduct 2])) 1 = [1, 3] \<and>
   (\<exists>row. products (snd (add_product (run fresh_store (three_products @ [DeleteProduct 2]))
                          widget ''t4'')) =
            products (run fresh_store (three_products @ [DeleteProduct 2])) @ [row] \<and>
          cell row 1 = IntV 4)"
proof -
  let ?s = "run fresh_store (three_products @ [DeleteProduct 2])"
  have r: "reachable ?s"
    unfolding fresh_store_def by (intro reachable_run reachable.init)
  have ok: "add_product ?s widget ''t4'' = (Ok, snd (add_product ?s widget ''t4''))"
    by code_simp
  have d3: "display_ids (run fresh_store three_products) 1 = [1, 2, 3]" by code_simp
  have d: "display_ids ?s 1 = [1, 3]" by code_simp
  from display_id_assigned [OF r ok] d d3 show ?thesis by simp
qed

text \<open>
  The claim as it was stated fails when the deleted product is the one with the largest
  display identifier: after 1, 2, 3 and the deletion of product 3, the next product
  gets 3 again, which is not greater than every identifier assigned before.
\<close>

theorem display_id_reused_counterexample:
  "display_ids (run fresh_store three_products) 1 = [1, 2, 3] \<and>
   display_ids (run fresh_store (three_products @
      [DeleteProduct 3, AddProduct widget ''t4''])) 1 = [1, 2, 3] \<and>
   \<not> (\<forall>k \<in> set (display_ids (run fresh_store three_products) 1).
        k < last (display_ids (run fresh_store (three_products @
              [DeleteProduct 3, AddProduct widget ''t4''])) 1))"
proof -
  have a: "display_ids (run fresh_store three_products) 1 = [1, 2, 3]" by code_simp
  have b: "display_ids (run fresh_store (three_products @
      [DeleteProduct 3, AddProduct widget ''t4''])) 1 = [1, 2, 3]" by code_simp
  show ?thesis unfolding a b by simp
qed


section \<open>One inventory row for a product and a location\<close>


definition inv_key :: "inv_row \<Rightarrow> int \<times> string" where
  "inv_key e = (product_id e, location e)"

lemma fold_max_ge: "(seq::int) \<le> fold max ids seq \<and> (\<forall>i \<in> set ids. i \<le> fold max ids seq)"
proof (induction ids arbitrary: seq)
  case Nil
  then show ?case by simp
next
  case (Cons a ids)
  from Cons [of "max a seq"] show ?case by auto
qed

lemma next_rowid_fresh: "i \<in> set ids \<Longrightarrow> i < next_rowid seq ids"
  using fold_max_ge [of seq ids] by (auto simp: next_rowid_def)

lemma next_rowid_not_in: "next_rowid seq (map f xs) \<notin> f ` set xs"
  using next_rowid_fresh [of _ "map f xs" seq] by fastforce

lemma distinct_update_row:
  assumes "distinct (map inv_id xs)" "distinct (map inv_key xs)"
    and "\<forall>e \<in> set xs. \<not> (inv_id e = iid \<and> product_id e = pid) \<longrightarrow> inv_key e \<noteq> (pid, loc)"
  shows "distinct (map inv_key
           (map (\<lambda>e. if inv_id e = iid \<and> product_id e = pid
                     then e\<lparr>quantity := q, location := loc, last_updated := now\<rparr> else e) xs))"
  using assms
proof (induction xs)
  case Nil
  then show ?case by simp
next
  case (Cons x xs)
  let ?u = "\<lambda>e. if inv_id e = iid \<and> product_id e = pid
                     then e\<lparr>quantity := q, location := loc, last_updated := now\<rparr> else e"
  have ih: "distinct (map inv_key (map ?u xs))" using Cons by simp
  have notin: "inv_key (?u x) \<notin> inv_key ` ?u ` set xs"
  proof
    assume "inv_key (?u x) \<in> inv_key ` ?u ` set xs"
    then obtain y where y: "y \<in> set xs" "inv_key (?u y) = inv_key (?u x)" by auto
    from Cons.prems have "inv_id x \<notin> inv_id ` set xs" "inv_key x \<notin> inv_key ` set xs"
      by simp_all
    with y(1) have ne: "inv_id y \<noteq> inv_id x" "inv_key y \<noteq> inv_key x" by (metis imageI)+
    show False
    proof (cases "inv_id x = iid \<and> product_id x = pid")
      case True
      with ne have "\<not> (inv_id y = iid \<and> product_id y = pid)" by auto
      with y True Cons.prems(3) show False by (auto simp: inv_key_def)
    next
      case False
      note fx = this
      show False
      proof (cases "inv_id y = iid \<and> product_id y = pid")
        case True
        with y fx Cons.prems(3) show False by (auto simp: inv_key_def)
      next
        case False
        with y fx ne show False by auto
      qed
    qed
  qed
  have st: "set (map inv_key (map ?u xs)) = inv_key ` ?u ` set xs" by (simp only: set_map)
  have "distinct (inv_key (?u x) # map inv_key (map ?u xs))"
    unfolding distinct.simps st using ih notin by blast
  then show ?case by (simp only: list.map)
qed

lemma map_inv_id_update:
  "map inv_id (map (\<lambda>e. if P e then e\<lparr>quantity := q, location := l, last_updated := n\<rparr> else e) xs)
     = map inv_id xs"
  by (induction xs) auto

lemma update_inventory_inventory:
  "inventory (snd (update_inventory s pf idf qf lf now)) = inventory s \<or>
   (\<exists>iid pid q. inventory (snd (update_inventory s pf idf qf lf now)) =
       map (\<lambda>e. if inv_id e = iid \<and> product_id e = pid
                 then e\<lparr>quantity := q, location := strip lf, last_updated := now\<rparr> else e)
         (inventory s) \<and>
       (\<forall>e \<in> set (inventory s). \<not> (inv_id e = iid \<and> product_id e = pid) \<longrightarrow>
            inv_key e \<noteq> (pid, strip lf))) \<or>
   (\<exists>pid q. inventory (snd (update_inventory s pf idf qf lf now)) =
       filter (\<lambda>e. \<not> (product_id e = pid \<and> location e = strip lf)) (inventory s) @
         [\<lparr>inv_id = next_rowid (inventory_seq s) (map inv_id (inventory s)), product_id = pid,
           quantity = q, location = strip lf, last_updated = now\<rparr>])"
  by (auto simp: update_inventory_def Let_def inv_key_def split: option.splits)

lemma inv_ok_update_inventory:
  assumes "inv_ok s" shows "inv_ok (snd (update_inventory s pf idf qf lf now))"
proof -
  let ?s' = "snd (update_inventory s pf idf qf lf now)"
  from assms have d1: "distinct (map inv_key (inventory s))" and d2: "distinct (map inv_id (inventory s))"
    by (simp_all add: inv_ok_def inv_key_def [abs_def])
  consider (same) "inventory ?s' = inventory s"
    | (upd) iid pid q where "inventory ?s' =
       map (\<lambda>e. if inv_id e = iid \<and> product_id e = pid
                 then e\<lparr>quantity := q, location := strip lf, last_updated := now\<rparr> else e)
         (inventory s)"
       "\<forall>e \<in> set (inventory s). \<not> (inv_id e = iid \<and> product_id e = pid) \<longrightarrow>
            inv_key e \<noteq> (pid, strip lf)"
    | (ins) pid q where "inventory ?s' =
       filter (\<lambda>e. \<not> (product_id e = pid \<and> location e = strip lf)) (inventory s) @
         [\<lparr>inv_id = next_rowid (inventory_seq s) (map inv_id (inventory s)), product_id = pid,
           quantity = q, location = strip lf, last_updated = now\<rparr>]"
    using update_inventory_inventory [of s pf idf qf lf now] by blast
  then have "distinct (map inv_key (inventory ?s')) \<and> distinct (map inv_id (inventory ?s'))"
  proof cases
    case same
    then show ?thesis using d1 d2 by simp
  next
    case upd
    have "map inv_id (inventory ?s') = map inv_id (inventory s)"
      unfolding upd(1) by (rule map_inv_id_update)
    moreover have "distinct (map inv_key (inventory ?s'))"
      unfolding upd(1) by (rule distinct_update_row [OF d2 d1 upd(2)])
    ultimately show ?thesis using d2 by simp
  next
    case ins
    have a: "distinct (map inv_key (filter (\<lambda>e. \<not> (product_id e = pid \<and> location e = strip lf)) (inventory s)))"
      using d1 by (rule distinct_map_filter)
    have b: "distinct (map inv_id (filter (\<lambda>e. \<not> (product_id e = pid \<and> location e = strip lf)) (inventory s)))"
      using d2 by (rule distinct_map_filter)
    have c: "next_rowid (inventory_seq s) (map inv_id (inventory s)) \<notin> inv_id ` set (inventory s)"
      by (rule next_rowid_not_in)
    show ?thesis unfolding ins using a b c by (auto simp: inv_key_def)
  qed
  then show ?thesis by (simp add: inv_ok_def inv_key_def [abs_def])
qed

lemma inv_ok_add_product:
  assumes "inv_ok s" shows "inv_ok (snd (add_product s form now))"
proof -
  obtain r s' where a: "add_product s form now = (r, s')" by (cases "add_product s form now")
  from add_product_cases [OF a] show ?thesis
  proof
    assume "r \<noteq> Ok \<and> s' = s" with a assms show ?thesis by simp
  next
    assume "r = Ok \<and> (\<exists>binds pid s1. sql_insert_product s binds = Some (pid, s1)
                      \<and> sql_insert_inventory s1 pid 0 [] now = Some s')"
    then obtain binds pid s1 where p: "sql_insert_product s binds = Some (pid, s1)"
      and i: "sql_insert_inventory s1 pid 0 [] now = Some s'" by blast
    have e: "inventory s1 = inventory s" by (rule sql_insert_product_effect(3) [OF p])
    have n: "inventory s' = inventory s @
       [\<lparr>inv_id = next_rowid (inventory_seq s1) (map inv_id (inventory s)), product_id = pid,
         quantity = 0, location = [], last_updated = now\<rparr>]"
      using sql_insert_inventory_effect(1) [OF i] e by simp
    have f: "\<forall>e \<in> set (inventory s). \<not> (product_id e = pid \<and> location e = [])"
      using sql_insert_inventory_effect(2) [OF i] e by simp
    have c: "next_rowid (inventory_seq s1) (map inv_id (inventory s)) \<notin> inv_id ` set (inventory s)"
      by (rule next_rowid_not_in)
    show ?thesis using assms a n f c by (auto simp: inv_ok_def)
  qed
qed

lemma inv_ok_delete:
  "inv_ok s \<Longrightarrow> inv_ok (snd (delete_product s pid))"
  "inv_ok s \<Longrightarrow> inv_ok (snd (delete_inventory_entry s iid))"
  by (auto simp: inv_ok_def delete_product_def delete_inventory_entry_def Let_def
        distinct_map_filter split: option.splits)

lemma inventory_unchanged:
  "inventory (snd (add_column s uid c t opts)) = inventory s"
  "inventory (snd (update_product s pid form)) = inventory s"
  "inventory (snd (rename_column s uid old new)) = inventory s"
  "inventory (snd (update_column_options s c opts)) = inventory s"
  "inventory (snd (toggle_column_visibility s uid c v)) = inventory s"
  by (auto simp: add_column_def update_product_def sql_update_product_def rename_column_def
      update_column_options_def toggle_column_visibility_def insert_or_replace_visibility_def
      insert_or_ignore_definition_def Let_def
      split: option.splits sum.splits prod.splits if_splits)

lemma reachable_inv_ok: "reachable s \<Longrightarrow> inv_ok s"
proof (induction rule: reachable.induct)
  case (init fk reserved)
  show ?case by (simp add: inv_ok_def init_stock_table_def)
next
  case (step s r)
  show ?case
  proof (cases r)
    case (AddProduct form now)
    then show ?thesis using step.IH by (simp add: inv_ok_add_product)
  next
    case (UpdateInventory p i q l now)
    then show ?thesis using step.IH by (simp add: inv_ok_update_inventory)
  next
    case (DeleteProduct pid)
    then show ?thesis using step.IH by (simp add: inv_ok_delete)
  next
    case (DeleteInventoryEntry iid)
    then show ?thesis using step.IH by (simp add: inv_ok_delete)
  qed (insert step.IH, simp_all add: inv_ok_def inventory_unchanged)
qed



lemma upsert_result:
  assumes "update_inventory s pf idf qf lf now = (Ok, s')" "idf = [] \<or> idf = ''None''"
  shows "\<exists>pid q. py_int pf = Some pid \<and> py_int qf = Some q \<and>
           inventory s' =
             filter (\<lambda>e. \<not> (product_id e = pid \<and> location e = strip lf)) (inventory s) @
               [\<lparr>inv_id = next_rowid (inventory_seq s) (map inv_id (inventory s)),
                 product_id = pid, quantity = q, location = strip lf, last_updated = now\<rparr>]"
  using assms
  by (auto simp: update_inventory_def Let_def split: option.splits if_splits)

lemma filter_after_upsert:
  "filter (\<lambda>e. product_id e = pid \<and> location e = loc)
     (filter (\<lambda>e. \<not> (product_id e = pid \<and> location e = loc)) xs @
        [\<lparr>inv_id = i, product_id = pid, quantity = q, location = loc, last_updated = now\<rparr>]) =
   [\<lparr>inv_id = i, product_id = pid, quantity = q, location = loc, last_updated = now\<rparr>]"
  by (induction xs) auto

text \<open>
  Claim C2. In every store the application can reach, no two inventory rows have the
  same product and the same location text, the empty location included. And when
  \<open>update_inventory\<close> is called twice without an inventory id for the same product and
  location and succeeds both times, the store has exactly one row for that pair, with
  the quantity of the second call.
\<close>

theorem inventory_unique_per_location:
  assumes "reachable s"
  shows "distinct (map (\<lambda>e. (product_id e, location e)) (inventory s)) \<and>
    (\<forall>pf qf1 qf2 lf n1 n2 s1 s2.
       update_inventory s pf [] qf1 lf n1 = (Ok, s1) \<longrightarrow>
       update_inventory s1 pf [] qf2 lf n2 = (Ok, s2) \<longrightarrow>
       (\<exists>pid q e. py_int pf = Some pid \<and> py_int qf2 = Some q \<and>
          filter (\<lambda>e. product_id e = pid \<and> location e = strip lf) (inventory s2) = [e] \<and>
          quantity e = q))"
proof (intro conjI allI impI)
  show "distinct (map (\<lambda>e. (product_id e, location e)) (inventory s))"
    using reachable_inv_ok [OF assms] by (simp add: inv_ok_def)
next
  fix pf qf1 qf2 lf n1 n2 s1 s2
  assume "update_inventory s pf [] qf1 lf n1 = (Ok, s1)"
    and 2: "update_inventory s1 pf [] qf2 lf n2 = (Ok, s2)"
  from upsert_result [OF 2] obtain pid q where p: "py_int pf = Some pid" "py_int qf2 = Some q"
    and i: "inventory s2 =
             filter (\<lambda>e. \<not> (product_id e = pid \<and> location e = strip lf)) (inventory s1) @
               [\<lparr>inv_id = next_rowid (inventory_seq s1) (map inv_id (inventory s1)),
                 product_id = pid, quantity = q, location = strip lf, last_updated = n2\<rparr>]"
    by auto
  show "\<exists>pid q e. py_int pf = Some pid \<and> py_int qf2 = Some q \<and>
          filter (\<lambda>e. product_id e = pid \<and> location e = strip lf) (inventory s2) = [e] \<and>
          quantity e = q"
    using p unfolding i filter_after_upsert by auto
qed

definition one_product :: store where
  "one_product = run fresh_store [AddProduct widget ''t0'']"

text \<open>
  The scenario of the specification: product 1, location A, quantity 5 and then 7.
\<close>

theorem inventory_unique_per_location_witness:
  "distinct (map (\<lambda>e. (product_id e, location e)) (inventory one_product)) \<and>
   (\<exists>e. filter (\<lambda>e. product_id e = 1 \<and> location e = ''A'')
          (inventory (run one_product
             [UpdateInventory ''1'' [] ''5'' ''A'' ''t1'',
              UpdateInventory ''1'' [] ''7'' ''A'' ''t2''])) = [e] \<and>
        quantity e = 7)"
proof -
  have r: "reachable one_product"
    unfolding one_product_def fresh_store_def by (intro reachable_run reachable.init)
  let ?s1 = "snd (update_inventory one_product ''1'' [] ''5'' ''A'' ''t1'')"
  let ?s2 = "snd (update_inventory ?s1 ''1'' [] ''7'' ''A'' ''t2'')"
  have 1: "update_inventory one_product ''1'' [] ''5'' ''A'' ''t1'' = (Ok, ?s1)" by code_simp
  have 2: "update_inventory ?s1 ''1'' [] ''7'' ''A'' ''t2'' = (Ok, ?s2)" by code_simp
  have p: "py_int ''1'' = Some 1" "py_int ''7'' = Some 7" "strip ''A'' = ''A''" by code_simp+
  from inventory_unique_per_location [OF r] 1 2
  have "\<exists>pid q e. py_int ''1'' = Some pid \<and> py_int ''7'' = Some q \<and>
          filter (\<lambda>e. product_id e = pid \<and> location e = strip ''A'') (inventory ?s2) = [e] \<and>
          quantity e = q" by blast
  then have "\<exists>e. filter (\<lambda>e. product_id e = 1 \<and> location e = ''A'') (inventory ?s2) = [e] \<and>
          quantity e = 7" unfolding p by auto
  moreover have "distinct (map (\<lambda>e. (product_id e, location e)) (inventory one_product))"
    using inventory_unique_per_location [OF r] by blast
  ultimately show ?thesis by simp
qed


section \<open>Renaming an attribute\<close>

lemma list_update_as_map:
  assumes "distinct cols" "i < length cols"
  shows "cols[i := n] = map (\<lambda>c. if c = cols ! i then n else c) cols"
proof (rule nth_equalityI)
  show "length (cols[i := n]) = length (map (\<lambda>c. if c = cols ! i then n else c) cols)" by simp
next
  fix j assume "j < length (cols[i := n])"
  then have j: "j < length cols" by simp
  show "cols[i := n] ! j = map (\<lambda>c. if c = cols ! i then n else c) cols ! j"
    using assms j by (auto simp: nth_list_update nth_eq_iff_index_eq)
qed

lemma rename_in_as_map:
  assumes "cols_ok cols" "old \<in> set cols"
  shows "rename_in cols old n = map (\<lambda>c. if c = old then n else c) cols"
proof -
  from assms have l: "sql_lower old = old" by (simp add: cols_ok_def sql_lower_fixed)
  from assms have "sql_lower old \<in> set (map sql_lower cols)" by auto
  then obtain i where i: "col_index cols old = Some i" by (auto simp: col_index_def)
  from col_index_nth [OF i] have il: "i < length cols" and "sql_lower (cols ! i) = sql_lower old"
    by simp_all
  moreover have "sql_lower (cols ! i) = cols ! i"
    using assms(1) il by (simp add: cols_ok_def sql_lower_fixed)
  ultimately have e: "cols ! i = old" using l by simp
  have d: "distinct cols" using assms(1) by (simp add: cols_ok_def)
  show ?thesis using list_update_as_map [OF d il, of n] i e by (simp add: rename_in_def)
qed

lemma rename_column_ok:
  assumes "rename_column s uid old new = (Ok, s')"
  shows "s' = s\<lparr>product_columns := rename_in (product_columns s) old (sanitize (strip new)),
               stock_columns :=
                 map (\<lambda>d. if column_name d = old then d\<lparr>column_name := sanitize (strip new)\<rparr> else d)
                   (stock_columns s),
               user_column_visibility :=
                 map (\<lambda>v. if vis_column v = old \<and> user_id v = uid
                           then v\<lparr>vis_column := sanitize (strip new)\<rparr> else v)
                   (user_column_visibility s)\<rparr>"
    and "sanitize (strip new) \<notin> set (map lower (product_columns s))"
    and "sanitize (strip new) \<notin> set reserved_names"
    and "sanitize (strip new) \<noteq> []"
  using assms
  by (auto simp: rename_column_def Let_def split: if_splits)





lemma visibility_after_insert:
  "\<forall>v \<in> set (user_column_visibility s). user_id v = uid \<Longrightarrow>
   \<forall>v \<in> set (user_column_visibility (insert_or_replace_visibility s uid c x)). user_id v = uid"
  by (auto simp: insert_or_replace_visibility_def Let_def)







definition colour_store :: store where
  "colour_store = run fresh_store [AddColumn 1 ''color'' ''text'' []]"


section \<open>Defining an attribute\<close>

definition spec_sanitize :: "string \<Rightarrow> string" where
  \<comment> \<open>The sanitization as the specification words it: keep only alphanumerics and
      spaces, replace spaces with underscores, lowercase.\<close>
  "spec_sanitize raw =
     map lower_char
       (map (\<lambda>c. if c = CHR '' '' then CHR ''_'' else c)
          (filter (\<lambda>c. isalnum c \<or> c = CHR '' '') raw))"

lemma replace_char:
  "replace [a] [b] xs = map (\<lambda>c. if c = a then b else c) xs"
proof (induction xs)
  case Nil
  then show ?case by (simp add: replace.simps)
next
  case (Cons x xs)
  then show ?case by (subst replace.simps) auto
qed

lemma sanitize_spec: "sanitize raw = spec_sanitize raw"
  by (simp add: sanitize_def spec_sanitize_def replace_char lower_def)

text \<open>
  Claim C4, as amended. \<open>add_column\<close> trims the name it is given and sanitizes the
  result the way the specification says: only alphanumerics and spaces are kept, spaces
  become underscores, letters become lowercase. When the sanitized name is empty or one
  of \<open>id\<close>, \<open>user_product_id\<close>, \<open>name\<close>, \<open>price\<close>, it fails with InvalidAttributeName.
  When the name passes and the type is \<open>select\<close> with no option left after splitting on
  commas, trimming and dropping the empty entries, it fails with EmptyOptionSet. When
  the name and the options pass and the name equals a column of the products table
  without regard to case, it fails with DuplicateAttribute. In each of these failures
  the whole store, schema and definitions included, is what it was.
\<close>

theorem add_column_rejections:
  "sanitize (strip name_raw) = spec_sanitize (strip name_raw) \<and>
   (sanitize (strip name_raw) = [] \<or> sanitize (strip name_raw) \<in> set reserved_names \<longrightarrow>
      add_column s uid name_raw ty opts = (Err InvalidAttributeName, s)) \<and>
   (sanitize (strip name_raw) \<noteq> [] \<and> sanitize (strip name_raw) \<notin> set reserved_names \<and>
    ty = ''select'' \<and> parse_options (strip opts) = [] \<longrightarrow>
      add_column s uid name_raw ty opts = (Err EmptyOptionSet, s)) \<and>
   (sanitize (strip name_raw) \<noteq> [] \<and> sanitize (strip name_raw) \<notin> set reserved_names \<and>
    \<not> (ty = ''select'' \<and> parse_options (strip opts) = []) \<and>
    (\<exists>c \<in> set (product_columns s). lower c = lower (sanitize (strip name_raw))) \<longrightarrow>
      add_column s uid name_raw ty opts = (Err DuplicateAttribute, s))"
proof (intro conjI impI)
  show "sanitize (strip name_raw) = spec_sanitize (strip name_raw)" by (rule sanitize_spec)
next
  assume "sanitize (strip name_raw) = [] \<or> sanitize (strip name_raw) \<in> set reserved_names"
  then show "add_column s uid name_raw ty opts = (Err InvalidAttributeName, s)"
    by (auto simp: add_column_def Let_def)
next
  assume a: "sanitize (strip name_raw) \<noteq> [] \<and> sanitize (strip name_raw) \<notin> set reserved_names \<and>
    ty = ''select'' \<and> parse_options (strip opts) = []"
  then have ne: "strip name_raw \<noteq> []" by (auto simp: sanitize_def lower_def replace.simps)
  with a show "add_column s uid name_raw ty opts = (Err EmptyOptionSet, s)"
    by (simp add: add_column_def Let_def)
next
  assume a: "sanitize (strip name_raw) \<noteq> [] \<and> sanitize (strip name_raw) \<notin> set reserved_names \<and>
    \<not> (ty = ''select'' \<and> parse_options (strip opts) = []) \<and>
    (\<exists>c \<in> set (product_columns s). lower c = lower (sanitize (strip name_raw)))"
  then have ne: "strip name_raw \<noteq> []" by (auto simp: sanitize_def lower_def replace.simps)
  from a have "sanitize (strip name_raw) \<in> set (map lower (product_columns s))" by force
  with a ne show "add_column s uid name_raw ty opts = (Err DuplicateAttribute, s)"
    by (auto simp: add_column_def Let_def)
qed

text \<open>
  On a store that has the attribute \<open>color\<close>: a blank name, a reserved name, a select
  attribute whose options are all blank, a duplicate.
\<close>

theorem add_column_rejections_witness:
  "add_column colour_store 1 ''  '' ''text'' [] = (Err InvalidAttributeName, colour_store) \<and>
   add_column colour_store 1 '' Price '' ''text'' [] = (Err InvalidAttributeName, colour_store) \<and>
   add_column colour_store 1 ''Size'' ''select'' '' , ,'' = (Err EmptyOptionSet, colour_store) \<and>
   add_column colour_store 1 ''Color'' ''select'' ''Red, Blue'' = (Err DuplicateAttribute, colour_store)"
proof -
  have 1: "sanitize (strip ''  '') = []" by code_simp
  have 2: "sanitize (strip '' Price '') \<in> set reserved_names" by code_simp
  have 3: "sanitize (strip ''Size'') \<noteq> []" "sanitize (strip ''Size'') \<notin> set reserved_names"
    "parse_options (strip '' , ,'') = []" by code_simp+
  have 4: "sanitize (strip ''Color'') \<noteq> []" "sanitize (strip ''Color'') \<notin> set reserved_names"
    "parse_options (strip ''Red, Blue'') \<noteq> []"
    "\<exists>c \<in> set (product_columns colour_store). lower c = lower (sanitize (strip ''Color''))"
    by code_simp+
  have a: "add_column colour_store 1 ''  '' ''text'' [] = (Err InvalidAttributeName, colour_store)"
    using add_column_rejections [of "''  ''" colour_store 1 "''text''" "[]"] 1 by blast
  have b: "add_column colour_store 1 '' Price '' ''text'' [] =
           (Err InvalidAttributeName, colour_store)"
    using add_column_rejections [of "'' Price ''" colour_store 1 "''text''" "[]"] 2 by blast
  have c: "add_column colour_store 1 ''Size'' ''select'' '' , ,'' = (Err EmptyOptionSet, colour_store)"
    using add_column_rejections [of "''Size''" colour_store 1 "''select''" "'' , ,''"] 3 by blast
  have d: "add_column colour_store 1 ''Color'' ''select'' ''Red, Blue'' =
           (Err DuplicateAttribute, colour_store)"
    using add_column_rejections [of "''Color''" colour_store 1 "''select''" "''Red, Blue''"] 4
    by blast
  from a b c d show ?thesis by blast
qed

text \<open>
  The claim as stated fails in two places. A select attribute with no option and the
  name of an existing column is refused with EmptyOptionSet, not DuplicateAttribute.
  And the name is trimmed before it is sanitized: the specification's sanitization of
  \<open>" Size"\<close> is \<open>_size\<close>, the column that is created is \<open>size\<close>.
\<close>

theorem add_column_check_order_counterexample:
  "sanitize (strip ''Color'') = ''color'' \<and>
   ''color'' \<in> set (product_columns colour_store) \<and>
   add_column colour_store 1 ''Color'' ''select'' [] = (Err EmptyOptionSet, colour_store) \<and>
   spec_sanitize '' Size'' = ''_size'' \<and>
   product_columns (snd (add_column colour_store 1 '' Size'' ''text'' [])) =
     [''id'', ''user_product_id'', ''name'', ''price'', ''color'', ''size'']"
  by code_simp


section \<open>The price of a product\<close>

lemma and_then_Inl: "and_then b r = Inl e \<Longrightarrow> r = Inl e"
  by (cases r) (auto simp: and_then_def)

lemma dynamic_values_error:
  "dynamic_values s form cs = Inl e \<Longrightarrow> e = InvalidNumericValue \<or> e = InvalidOption"
proof (induction cs)
  case Nil
  then show ?case by simp
next
  case (Cons c cs)
  then show ?case
    by (auto simp: Let_def split: if_splits prod.splits option.splits dest!: and_then_Inl)
qed

lemma add_product_price:
  assumes "col_index (product_columns s) ''user_product_id'' \<noteq> None"
    and "strip (form_get form ''name'') \<noteq> []"
  shows "fst (add_product s form now) = Err InvalidPrice \<longleftrightarrow>
         py_float (strip (form_get form ''price'')) = None"
proof (cases "py_float (strip (form_get form ''price''))")
  case None
  with assms show ?thesis by (auto simp: add_product_def Let_def)
next
  case (Some p)
  obtain i where i: "col_index (product_columns s) ''user_product_id'' = Some i"
    using assms(1) by auto
  have "fst (add_product s form now) \<noteq> Err InvalidPrice"
  proof (cases "dynamic_values s form (product_columns s)")
    case (Inl e)
    with dynamic_values_error [OF Inl] Some assms(2) i show ?thesis
      by (auto simp: add_product_def Let_def)
  next
    case (Inr dyn)
    with Some assms(2) i show ?thesis
      by (auto simp: add_product_def Let_def split: option.splits)
  qed
  with Some show ?thesis by simp
qed

lemma update_product_price:
  assumes "strip (form_get form ''name'') \<noteq> []"
  shows "fst (update_product s pid form) = Err InvalidPrice \<longleftrightarrow>
         py_float (strip (form_get form ''price'')) = None"
proof (cases "py_float (strip (form_get form ''price''))")
  case None
  with assms show ?thesis by (auto simp: update_product_def Let_def)
next
  case (Some p)
  have "fst (update_product s pid form) \<noteq> Err InvalidPrice"
  proof (cases "dynamic_values s form (product_columns s)")
    case (Inl e)
    with dynamic_values_error [OF Inl] Some assms show ?thesis
      by (auto simp: update_product_def Let_def)
  next
    case (Inr dyn)
    with Some assms show ?thesis
      by (auto simp: update_product_def Let_def split: option.splits)
  qed
  with Some show ?thesis by simp
qed

text \<open>
  Claim C6, as amended. Both views test the name before the price. For a form whose
  name is not blank, \<open>add_product\<close> (on a store that still has the column
  \<open>user_product_id\<close>, which it reads first) and \<open>update_product\<close> answer InvalidPrice
  exactly when \<open>float()\<close> rejects the trimmed price field. No other test is made on the
  price: a price that parses is never refused as invalid, whatever its sign. For a form
  whose name is blank they answer EmptyName and leave the store as it was, whatever the
  price.
\<close>

theorem price_validation:
  "(strip (form_get form ''name'') \<noteq> [] \<longrightarrow>
      (col_index (product_columns s) ''user_product_id'' \<noteq> None \<longrightarrow>
         (fst (add_product s form now) = Err InvalidPrice \<longleftrightarrow>
          py_float (strip (form_get form ''price'')) = None)) \<and>
      (fst (update_product s pid form) = Err InvalidPrice \<longleftrightarrow>
          py_float (strip (form_get form ''price'')) = None)) \<and>
   (strip (form_get form ''name'') = [] \<longrightarrow>
      (col_index (product_columns s) ''user_product_id'' \<noteq> None \<longrightarrow>
         add_product s form now = (Err EmptyName, s)) \<and>
      update_product s pid form = (Err EmptyName, s))"
proof (intro conjI impI)
  assume n: "strip (form_get form ''name'') \<noteq> []"
  show "fst (update_product s pid form) = Err InvalidPrice \<longleftrightarrow>
        py_float (strip (form_get form ''price'')) = None"
    by (rule update_product_price [OF n])
  assume "col_index (product_columns s) ''user_product_id'' \<noteq> None"
  then show "fst (add_product s form now) = Err InvalidPrice \<longleftrightarrow>
        py_float (strip (form_get form ''price'')) = None"
    by (rule add_product_price [OF _ n])
next
  assume n: "strip (form_get form ''name'') = []"
  then show "update_product s pid form = (Err EmptyName, s)"
    by (simp add: update_product_def Let_def)
  assume "col_index (product_columns s) ''user_product_id'' \<noteq> None"
  with n show "add_product s form now = (Err EmptyName, s)"
    by (auto simp: add_product_def Let_def)
qed

definition negative_price :: "(string \<times> string) list" where
  "negative_price = [(''name'', ''Refund''), (''price'', ''-3.5'')]"

definition bad_price :: "(string \<times> string) list" where
  "bad_price = [(''name'', ''Refund''), (''price'', ''3,5'')]"

definition nameless :: "(string \<times> string) list" where
  "nameless = [(''name'', ''  ''), (''price'', ''abc'')]"

text \<open>
  The price \<open>-3.5\<close> is stored by both views; the price \<open>3,5\<close> is refused by both; with a
  blank name both answer EmptyName.
\<close>

theorem price_validation_witness:
  "py_float (strip (form_get negative_price ''price'')) = Some (Dec (- 35) (- 1)) \<and>
   is_negative (Dec (- 35) (- 1)) \<and>
   fst (add_product one_product negative_price ''t'') \<noteq> Err InvalidPrice \<and>
   fst (update_product one_product 1 negative_price) \<noteq> Err InvalidPrice \<and>
   products (snd (add_product one_product negative_price ''t'')) =
     [[IntV 1, IntV 1, TextV ''Widget'', RealV (Dec 999 (- 2))],
      [IntV 2, IntV 2, TextV ''Refund'', RealV (Dec (- 35) (- 1))]] \<and>
   products (snd (update_product one_product 1 negative_price)) =
     [[IntV 1, IntV 1, TextV ''Refund'', RealV (Dec (- 35) (- 1))]] \<and>
   py_float (strip (form_get bad_price ''price'')) = None \<and>
   fst (add_product one_product bad_price ''t'') = Err InvalidPrice \<and>
   fst (update_product one_product 1 bad_price) = Err InvalidPrice \<and>
   add_product one_product nameless ''t'' = (Err EmptyName, one_product) \<and>
   update_product one_product 1 nameless = (Err EmptyName, one_product)"
proof -
  have b: "strip (form_get nameless ''name'') = []" by code_simp
  have n: "strip (form_get negative_price ''name'') \<noteq> []"
    "strip (form_get bad_price ''name'') \<noteq> []" by code_simp+
  have c: "col_index (product_columns one_product) ''user_product_id'' \<noteq> None" by code_simp
  have p: "py_float (strip (form_get negative_price ''price'')) = Some (Dec (- 35) (- 1))"
    "py_float (strip (form_get bad_price ''price'')) = None" by code_simp+
  have r: "products (snd (add_product one_product negative_price ''t'')) =
     [[IntV 1, IntV 1, TextV ''Widget'', RealV (Dec 999 (- 2))],
      [IntV 2, IntV 2, TextV ''Refund'', RealV (Dec (- 35) (- 1))]]"
    "products (snd (update_product one_product 1 negative_price)) =
     [[IntV 1, IntV 1, TextV ''Refund'', RealV (Dec (- 35) (- 1))]]" by code_simp+
  show ?thesis
    using price_validation [where form = negative_price and s = one_product and now = "''t''"
        and pid = 1]
      price_validation [where form = bad_price and s = one_product and now = "''t''" and pid = 1]
      price_validation [where form = nameless and s = one_product and now = "''t''" and pid = 1]
      n b c p r by simp
qed

text \<open>
  The claim as stated fails for a blank name: the price \<open>abc\<close> does not parse, and the
  answer of both views is EmptyName, not InvalidPrice. It also fails once the column
  \<open>user_product_id\<close> was renamed: \<open>add_product\<close> reads it before any test.
\<close>

theorem price_blank_name_counterexample:
  "py_float (strip (form_get nameless ''price'')) = None \<and>
   fst (add_product one_product nameless ''t'') = Err EmptyName \<and>
   fst (update_product one_product 1 nameless) = Err EmptyName \<and>
   fst (rename_column one_product 1 ''user_product_id'' ''display'') = Ok \<and>
   fst (add_product (snd (rename_column one_product 1 ''user_product_id'' ''display''))
          bad_price ''t'') = Err Unhandled"
  by code_simp


section \<open>Listing the inventory\<close>

definition passes_name_filter :: "string \<Rightarrow> nat \<Rightarrow> sqlval list \<Rightarrow> bool" where
  \<comment> \<open>the \<open>WHERE name LIKE ?\<close> of the products query, when there is a name filter\<close>
  "passes_name_filter name_arg n r =
     (strip name_arg = [] \<or>
      (case cell r n of TextV t \<Rightarrow> like_match (''%'' @ strip name_arg @ ''%'') t | _ \<Rightarrow> False))"

definition listed ::
  "store \<Rightarrow> string \<Rightarrow> nat \<Rightarrow> nat list \<Rightarrow> sqlval list \<Rightarrow> (sqlval list \<times> entry list) list" where
  \<comment> \<open>what the loop of lines 771-810 adds for one product\<close>
  "listed s location_filter i ix product =
     (let inventory_entries = inventory_entries_of s (cell product i) location_filter
      in if inventory_entries = [] \<and> location_filter \<noteq> [] then []
         else [(map (cell product) (i # ix),
                if inventory_entries = [] then [placeholder] else map entry_of inventory_entries)])"

lemma envanter_listesi_Inr:
  assumes "envanter_listesi s nf lf = Inr result"
  shows "\<exists>i u n p. col_index (product_columns s) ''id'' = Some i \<and>
           col_index (product_columns s) ''user_product_id'' = Some u \<and>
           col_index (product_columns s) ''name'' = Some n \<and>
           col_index (product_columns s) ''price'' = Some p \<and>
           set result = (\<Union>r \<in> {r \<in> set (products s). passes_name_filter nf n r}.
                           set (listed s (strip lf) i [u, n, p] r))"
proof -
  from assms obtain i u n p where
    ix: "col_index (product_columns s) ''id'' = Some i"
        "col_index (product_columns s) ''user_product_id'' = Some u"
        "col_index (product_columns s) ''name'' = Some n"
        "col_index (product_columns s) ''price'' = Some p"
    by (auto simp: envanter_listesi_def Let_def split: option.splits)
  with assms have "result = concat (map (listed s (strip lf) i [u, n, p])
      (sort_key (\<lambda>r. case cell r u of IntV k \<Rightarrow> k | _ \<Rightarrow> 0)
         (filter (passes_name_filter nf n) (products s))))"
    by (simp add: envanter_listesi_def Let_def listed_def [abs_def]
          passes_name_filter_def [abs_def])
  then have "set result = (\<Union>r \<in> {r \<in> set (products s). passes_name_filter nf n r}.
                           set (listed s (strip lf) i [u, n, p] r))"
    by auto
  with ix show ?thesis by blast
qed

lemma set_inventory_entries_of:
  "set (inventory_entries_of s pid f) =
     {e \<in> set (inventory s). IntV (product_id e) = pid \<and> (f = [] \<or> location e = f)}"
  by (auto simp: inventory_entries_of_def)

lemma listed_cases:
  assumes "(cells, es) \<in> set (listed s f i [u, n, p] r)"
  shows "cells = map (cell r) [i, u, n, p]"
    and "es \<noteq> []"
    and "f \<noteq> [] \<Longrightarrow> es = map entry_of (inventory_entries_of s (cell r i) f) \<and>
            inventory_entries_of s (cell r i) f \<noteq> []"
  using assms by (auto simp: listed_def Let_def split: if_splits)

lemma listed_no_filter:
  "\<exists>es. (map (cell r) [i, u, n, p], es) \<in> set (listed s [] i [u, n, p] r) \<and>
        ((\<forall>e \<in> set (inventory s). IntV (product_id e) \<noteq> cell r i) \<longrightarrow> es = [placeholder])"
proof (cases "inventory_entries_of s (cell r i) [] = []")
  case True
  then show ?thesis by (auto simp: listed_def)
next
  case False
  then obtain e where "e \<in> set (inventory_entries_of s (cell r i) [])"
    by (cases "inventory_entries_of s (cell r i) []") auto
  then have "e \<in> set (inventory s) \<and> IntV (product_id e) = cell r i"
    by (simp add: set_inventory_entries_of)
  with False show ?thesis by (auto simp: listed_def)
qed

text \<open>
  Claim C7. \<open>envanter_listesi\<close> answers whenever the four base columns are there. Every
  product it returns has at least one row. With a location filter (the query argument,
  trimmed, is not empty) every returned product has an inventory row whose location is
  exactly the filter, and the rows shown are such rows, never the placeholder: a product
  with no row there is left out. Without a location filter every product that passes
  the name filter is returned, and one that has no inventory row is returned with the
  single placeholder row: quantity 0, empty location, no identifier.
\<close>

theorem listing_location_filter:
  "((\<forall>c \<in> set [''id'', ''user_product_id'', ''name'', ''price''].
        col_index (product_columns s) c \<noteq> None) \<longrightarrow>
      (\<exists>result. envanter_listesi s nf lf = Inr result)) \<and>
   (\<forall>result. envanter_listesi s nf lf = Inr result \<longrightarrow>
      (\<exists>i u n p.
         col_index (product_columns s) ''id'' = Some i \<and>
         col_index (product_columns s) ''user_product_id'' = Some u \<and>
         col_index (product_columns s) ''name'' = Some n \<and>
         col_index (product_columns s) ''price'' = Some p \<and>
         (\<forall>(cells, es) \<in> set result. es \<noteq> []) \<and>
         (strip lf \<noteq> [] \<longrightarrow>
            (\<forall>(cells, es) \<in> set result.
               (\<forall>e \<in> set es. entry_location e = strip lf \<and> inventory_id e \<noteq> None) \<and>
               (\<exists>r \<in> set (inventory s). IntV (product_id r) = hd cells \<and> location r = strip lf))) \<and>
         (strip lf = [] \<longrightarrow>
            (\<forall>row \<in> set (products s). passes_name_filter nf n row \<longrightarrow>
               (\<exists>es. (map (cell row) [i, u, n, p], es) \<in> set result \<and>
                  ((\<forall>r \<in> set (inventory s). IntV (product_id r) \<noteq> cell row i) \<longrightarrow>
                     es = [placeholder]))))))"
proof (intro conjI allI impI)
  assume "\<forall>c \<in> set [''id'', ''user_product_id'', ''name'', ''price''].
        col_index (product_columns s) c \<noteq> None"
  then show "\<exists>result. envanter_listesi s nf lf = Inr result"
    by (auto simp: envanter_listesi_def Let_def)
next
  fix result assume a: "envanter_listesi s nf lf = Inr result"
  from envanter_listesi_Inr [OF a] obtain i u n p where
    ix: "col_index (product_columns s) ''id'' = Some i"
        "col_index (product_columns s) ''user_product_id'' = Some u"
        "col_index (product_columns s) ''name'' = Some n"
        "col_index (product_columns s) ''price'' = Some p"
    and res: "set result = (\<Union>r \<in> {r \<in> set (products s). passes_name_filter nf n r}.
                           set (listed s (strip lf) i [u, n, p] r))" by blast
  have 1: "\<forall>(cells, es) \<in> set result. es \<noteq> []"
    unfolding res using listed_cases(2) by fastforce
  have 2: "strip lf \<noteq> [] \<longrightarrow>
            (\<forall>(cells, es) \<in> set result.
               (\<forall>e \<in> set es. entry_location e = strip lf \<and> inventory_id e \<noteq> None) \<and>
               (\<exists>r \<in> set (inventory s). IntV (product_id r) = hd cells \<and> location r = strip lf))"
  proof (intro impI ballI, clarify)
    fix cells es assume f: "strip lf \<noteq> []" and m: "(cells, es) \<in> set result"
    from m obtain r where r: "(cells, es) \<in> set (listed s (strip lf) i [u, n, p] r)"
      unfolding res by blast
    from listed_cases(1) [OF r] have c: "hd cells = cell r i" by simp
    from listed_cases(3) [OF r f] have es: "es = map entry_of (inventory_entries_of s (cell r i) (strip lf))"
      and ne: "inventory_entries_of s (cell r i) (strip lf) \<noteq> []" by simp_all
    from ne obtain x where "x \<in> set (inventory_entries_of s (cell r i) (strip lf))"
      by (cases "inventory_entries_of s (cell r i) (strip lf)") auto
    then have x: "x \<in> set (inventory s)" "IntV (product_id x) = cell r i" "location x = strip lf"
      using f by (simp_all add: set_inventory_entries_of)
    have "\<forall>e \<in> set es. entry_location e = strip lf \<and> inventory_id e \<noteq> None"
      unfolding es using f by (auto simp: set_inventory_entries_of entry_of_def)
    with x c show "(\<forall>e \<in> set es. entry_location e = strip lf \<and> inventory_id e \<noteq> None) \<and>
               (\<exists>r \<in> set (inventory s). IntV (product_id r) = hd cells \<and> location r = strip lf)"
      by auto
  qed
  have 3: "strip lf = [] \<longrightarrow>
            (\<forall>row \<in> set (products s). passes_name_filter nf n row \<longrightarrow>
               (\<exists>es. (map (cell row) [i, u, n, p], es) \<in> set result \<and>
                  ((\<forall>r \<in> set (inventory s). IntV (product_id r) \<noteq> cell row i) \<longrightarrow>
                     es = [placeholder])))"
  proof (intro impI ballI)
    fix row assume f: "strip lf = []" and m: "row \<in> set (products s)"
      and pn: "passes_name_filter nf n row"
    from listed_no_filter [of row i u n p s] obtain es where
      "(map (cell row) [i, u, n, p], es) \<in> set (listed s [] i [u, n, p] row)"
      "(\<forall>e \<in> set (inventory s). IntV (product_id e) \<noteq> cell row i) \<longrightarrow> es = [placeholder]"
      by blast
    then show "\<exists>es. (map (cell row) [i, u, n, p], es) \<in> set result \<and>
                  ((\<forall>r \<in> set (inventory s). IntV (product_id r) \<noteq> cell row i) \<longrightarrow>
                     es = [placeholder])"
      unfolding res using f m pn by auto
  qed
  from ix 1 2 3 show "\<exists>i u n p.
         col_index (product_columns s) ''id'' = Some i \<and>
         col_index (product_columns s) ''user_product_id'' = Some u \<and>
         col_index (product_columns s) ''name'' = Some n \<and>
         col_index (product_columns s) ''price'' = Some p \<and>
         (\<forall>(cells, es) \<in> set result. es \<noteq> []) \<and>
         (strip lf \<noteq> [] \<longrightarrow>
            (\<forall>(cells, es) \<in> set result.
               (\<forall>e \<in> set es. entry_location e = strip lf \<and> inventory_id e \<noteq> None) \<and>
               (\<exists>r \<in> set (inventory s). IntV (product_id r) = hd cells \<and> location r = strip lf))) \<and>
         (strip lf = [] \<longrightarrow>
            (\<forall>row \<in> set (products s). passes_name_filter nf n row \<longrightarrow>
               (\<exists>es. (map (cell row) [i, u, n, p], es) \<in> set result \<and>
                  ((\<forall>r \<in> set (inventory s). IntV (product_id r) \<noteq> cell row i) \<longrightarrow>
                     es = [placeholder]))))"
    by blast
qed

definition listing_store :: store where
  \<comment> \<open>Widget with rows at the empty location and at A, Gadget with no row at all\<close>
  "listing_store =
     run fresh_store
       [AddProduct widget ''t0'', AddProduct [(''name'', ''Gadget''), (''price'', ''1'')] ''t1'',
        UpdateInventory ''1'' [] ''5'' ''A'' ''t2'', DeleteInventoryEntry 2]"

text \<open>
  No product has a row at B: the list is empty. At A only Widget is listed. With no
  filter Gadget is listed with the placeholder.
\<close>

theorem listing_location_filter_witness:
  "(\<exists>result. envanter_listesi listing_store [] ''B'' = Inr result) \<and>
   envanter_listesi listing_store [] ''B'' = Inr [] \<and>
   envanter_listesi listing_store [] '' A '' =
     Inr [([IntV 1, IntV 1, TextV ''Widget'', RealV (Dec 999 (- 2))],
           [\<lparr>inventory_id = Some 3, entry_quantity = 5, entry_location = ''A'',
             entry_last_updated = ''t2''\<rparr>])] \<and>
   envanter_listesi listing_store [] [] =
     Inr [([IntV 1, IntV 1, TextV ''Widget'', RealV (Dec 999 (- 2))],
           [\<lparr>inventory_id = Some 1, entry_quantity = 0, entry_location = [],
             entry_last_updated = ''t0''\<rparr>,
            \<lparr>inventory_id = Some 3, entry_quantity = 5, entry_location = ''A'',
             entry_last_updated = ''t2''\<rparr>]),
          ([IntV 2, IntV 2, TextV ''Gadget'', RealV (Dec 1 0)], [placeholder])]"
proof -
  have c: "\<forall>c \<in> set [''id'', ''user_product_id'', ''name'', ''price''].
        col_index (product_columns listing_store) c \<noteq> None" by code_simp
  have 1: "\<exists>result. envanter_listesi listing_store [] ''B'' = Inr result"
    using listing_location_filter [of listing_store "[]" "''B''"] c by blast
  have 2: "envanter_listesi listing_store [] ''B'' = Inr []" by code_simp
  have 3: "envanter_listesi listing_store [] '' A '' =
     Inr [([IntV 1, IntV 1, TextV ''Widget'', RealV (Dec 999 (- 2))],
           [\<lparr>inventory_id = Some 3, entry_quantity = 5, entry_location = ''A'',
             entry_last_updated = ''t2''\<rparr>])]" by code_simp
  have 4: "envanter_listesi listing_store [] [] =
     Inr [([IntV 1, IntV 1, TextV ''Widget'', RealV (Dec 999 (- 2))],
           [\<lparr>inventory_id = Some 1, entry_quantity = 0, entry_location = [],
             entry_last_updated = ''t0''\<rparr>,
            \<lparr>inventory_id = Some 3, entry_quantity = 5, entry_location = ''A'',
             entry_last_updated = ''t2''\<rparr>]),
          ([IntV 2, IntV 2, TextV ''Gadget'', RealV (Dec 1 0)], [placeholder])]" by code_simp
  from 1 2 3 4 show ?thesis by blast
qed

section \<open>Renaming a base column\<close>

lemma col_index_absent:
  assumes "\<forall>c \<in> set cols. lower c = c" "lower name = name" "name \<notin> set cols"
  shows "col_index cols name = None"
proof -
  have "map sql_lower cols = cols" using assms(1) by (rule set_sql_lower_cols)
  then show ?thesis using assms(2,3) by (simp add: col_index_def sql_lower_fixed)
qed

lemma sql_insert_product_cols:
  "sql_insert_product s binds = Some x \<Longrightarrow>
   \<forall>b \<in> set binds. col_index (product_columns s) (fst b) \<noteq> None"
  by (auto simp: sql_insert_product_def Let_def split: if_splits)

lemma sql_update_product_cols:
  "sql_update_product s binds pid = Some x \<Longrightarrow>
   (\<forall>b \<in> set binds. col_index (product_columns s) (fst b) \<noteq> None) \<and>
   col_index (product_columns s) ''id'' \<noteq> None"
  by (auto simp: sql_update_product_def Let_def split: if_splits option.splits)

lemma update_product_cases:
  assumes "update_product s pid form = (r, s')"
  shows "(r \<noteq> Ok \<and> s' = s) \<or>
         (r = Ok \<and> (\<exists>price dyn n.
            sql_update_product s
              ([(''name'', TextV (strip (form_get form ''name''))), (''price'', RealV price)] @ dyn)
              pid = Some (n, s')))"
  using assms
  by (auto simp: update_product_def Let_def split: option.splits sum.splits if_splits prod.splits)

lemma add_product_needs:
  assumes "col_index (product_columns s) c = None" "c = ''name'' \<or> c = ''price''"
  shows "fst (add_product s form now) \<noteq> Ok" and "snd (add_product s form now) = s"
proof -
  obtain r s' where a: "add_product s form now = (r, s')" by (cases "add_product s form now")
  have n: "r \<noteq> Ok"
  proof
    assume "r = Ok"
    with a add_product_ok [of s form now s'] obtain binds x where
      "sql_insert_product s binds = Some x" "(''name'' \<in> fst ` set binds \<and> ''price'' \<in> fst ` set binds)"
      by force
    with sql_insert_product_cols assms show False by fastforce
  qed
  with add_product_cases [OF a] a show "fst (add_product s form now) \<noteq> Ok"
    "snd (add_product s form now) = s" by auto
qed

lemma update_product_needs:
  assumes "col_index (product_columns s) c = None" "c = ''name'' \<or> c = ''price'' \<or> c = ''id''"
  shows "fst (update_product s pid form) \<noteq> Ok" and "snd (update_product s pid form) = s"
proof -
  obtain r s' where a: "update_product s pid form = (r, s')" by (cases "update_product s pid form")
  have n: "r \<noteq> Ok"
  proof
    assume "r = Ok"
    with update_product_cases [OF a] obtain price dyn n where
      "sql_update_product s
              ([(''name'', TextV (strip (form_get form ''name''))), (''price'', RealV price)] @ dyn)
              pid = Some (n, s')" by blast
    from sql_update_product_cols [OF this] assms show False by auto
  qed
  with update_product_cases [OF a] a show "fst (update_product s pid form) \<noteq> Ok"
    "snd (update_product s pid form) = s" by auto
qed

lemma map_if_none: "\<forall>x \<in> set xs. \<not> P x \<Longrightarrow> map (\<lambda>x. if P x then f x else x) xs = xs"
  by (induction xs) auto

lemma reserved_lower: "old \<in> set reserved_names \<Longrightarrow> lower old = old \<and> old \<noteq> []"
  by (auto simp: reserved_names_def lower_def lower_char_def is_upper_def)

text \<open>
  Claim C10. \<open>rename_column\<close> tests only the new name against the reserved names; the old
  name only has to be a column of the product table. In a store the application can reach,
  for a reserved base column \<open>old\<close> and a new name whose sanitized form is not empty, not
  reserved and not a column yet (both names being accepted by SQLite as identifiers), the
  rename succeeds: the column \<open>old\<close> is replaced by the new name in the product table and no
  column is called \<open>old\<close> any more, while the attribute definitions, the visibility records,
  the product rows and the inventory are untouched. The views that name the base columns
  then fail: the inventory listing always, \<open>add_product\<close> when the column was
  \<open>user_product_id\<close>, \<open>name\<close> or \<open>price\<close>, \<open>update_product\<close> when it was \<open>id\<close>, \<open>name\<close> or
  \<open>price\<close>, \<open>delete_product\<close> when it was \<open>id\<close>.
\<close>

theorem rename_reserved_column:
  assumes "reachable s" and "old \<in> set reserved_names" and "old \<in> set (product_columns s)"
    and "sanitize (strip new) \<noteq> []" and "sanitize (strip new) \<notin> set reserved_names"
    and "sanitize (strip new) \<notin> set (product_columns s)"
    and "sql_identifier s old" and "sql_identifier s (sanitize (strip new))"
  shows "\<exists>s'. rename_column s uid old new = (Ok, s') \<and>
     product_columns s' =
       map (\<lambda>c. if c = old then sanitize (strip new) else c) (product_columns s) \<and>
     col_index (product_columns s') old = None \<and>
     stock_columns s' = stock_columns s \<and>
     user_column_visibility s' = user_column_visibility s \<and>
     products s' = products s \<and> inventory s' = inventory s \<and>
     (\<forall>nf lf. envanter_listesi s' nf lf = Inl Unhandled) \<and>
     (old = ''user_product_id'' \<longrightarrow>
        (\<forall>form now. add_product s' form now = (Err Unhandled, s'))) \<and>
     (old = ''name'' \<or> old = ''price'' \<longrightarrow>
        (\<forall>form now. fst (add_product s' form now) \<noteq> Ok \<and> snd (add_product s' form now) = s')) \<and>
     (old \<noteq> ''user_product_id'' \<longrightarrow>
        (\<forall>pid form. fst (update_product s' pid form) \<noteq> Ok \<and>
                     snd (update_product s' pid form) = s')) \<and>
     (old = ''id'' \<longrightarrow> (\<forall>pid. delete_product s' pid = (Err DatabaseError, s')))"
proof -
  let ?n = "sanitize (strip new)"
  let ?cols = "product_columns s"
  have ok: "cols_ok ?cols" by (rule reachable_cols_ok [OF assms(1)])
  then have low: "\<forall>c \<in> set ?cols. lower c = c" by (simp add: cols_ok_def)
  then have m: "map lower ?cols = ?cols" by (rule set_lower_cols)
  from reserved_lower [OF assms(2)] have lo: "lower old = old" and one: "old \<noteq> []" by simp_all
  have nn: "strip new \<noteq> []" using assms(4) by (auto simp: sanitize_def lower_def replace.simps)
  have nok: "names_ok s" by (rule reachable_names_ok [OF assms(1)])
  have nodef: "\<forall>d \<in> set (stock_columns s). \<not> column_name d = old"
    and novis: "\<forall>v \<in> set (user_column_visibility s). \<not> (vis_column v = old \<and> user_id v = uid)"
    using nok assms(2) by (auto simp: names_ok_def)
  have c1: "lower old \<in> set (map lower ?cols)" unfolding m lo by (rule assms(3))
  have c2: "?n \<notin> set (map lower ?cols)" unfolding m by (rule assms(6))
  have "sql_lower old \<in> set (map sql_lower ?cols)" using assms(3) by auto
  then have c3: "col_index ?cols old \<noteq> None" by (simp add: col_index_def)
  have f: "fst (rename_column s uid old new) = Ok"
    using one nn assms(4,5,7,8) c1 c2 c3 nodef novis
    by (simp add: rename_column_def Let_def del: set_map)
  define s' where "s' = snd (rename_column s uid old new)"
  have r: "rename_column s uid old new = (Ok, s')" using f by (simp add: s'_def prod_eq_iff)
  note e = rename_column_ok(1) [OF r]
  have pc: "product_columns s' = map (\<lambda>c. if c = old then ?n else c) ?cols"
    using e rename_in_as_map [OF ok assms(3), of ?n] by simp
  have ne: "?n \<noteq> old" using assms(3,6) by auto
  have r': "reachable s'" using reachable.step [OF assms(1), of "RenameColumn uid old new"]
    by (simp add: s'_def)
  have low': "\<forall>c \<in> set (product_columns s'). lower c = c"
    using reachable_cols_ok [OF r'] by (simp add: cols_ok_def)
  have "old \<notin> set (product_columns s')" unfolding pc using ne by auto
  then have ci: "col_index (product_columns s') old = None"
    using col_index_absent [OF low' lo] by simp
  have sc: "stock_columns s' = stock_columns s" using e map_if_none [OF nodef] by simp
  have uv: "user_column_visibility s' = user_column_visibility s"
    using e map_if_none [OF novis] by simp
  have pi: "products s' = products s" "inventory s' = inventory s" using e by simp_all
  have old4: "old = ''id'' \<or> old = ''user_product_id'' \<or> old = ''name'' \<or> old = ''price''"
    using assms(2) by (auto simp: reserved_names_def)
  have el: "\<forall>nf lf. envanter_listesi s' nf lf = Inl Unhandled"
    using ci old4 by (auto simp: envanter_listesi_def Let_def split: option.splits)
  have ap1: "old = ''user_product_id'' \<longrightarrow>
        (\<forall>form now. add_product s' form now = (Err Unhandled, s'))"
    using ci by (auto simp: add_product_def)
  have ap2: "old = ''name'' \<or> old = ''price'' \<longrightarrow>
        (\<forall>form now. fst (add_product s' form now) \<noteq> Ok \<and> snd (add_product s' form now) = s')"
    using add_product_needs [OF ci] by blast
  have up: "old \<noteq> ''user_product_id'' \<longrightarrow>
        (\<forall>pid form. fst (update_product s' pid form) \<noteq> Ok \<and>
                     snd (update_product s' pid form) = s')"
    using update_product_needs [OF ci] old4 by blast
  have dp: "old = ''id'' \<longrightarrow> (\<forall>pid. delete_product s' pid = (Err DatabaseError, s'))"
    using ci by (auto simp: delete_product_def)
  from r pc ci sc uv pi el ap1 ap2 up dp show ?thesis by blast
qed

text \<open>
  Renaming \<open>price\<close> to \<open>Cost\<close> in a store with one product succeeds; afterwards no product
  can be added and the inventory listing fails.
\<close>

theorem rename_reserved_column_witness:
  "fst (rename_column one_product 1 ''price'' ''Cost'') = Ok \<and>
   product_columns (snd (rename_column one_product 1 ''price'' ''Cost'')) =
     [''id'', ''user_product_id'', ''name'', ''cost''] \<and>
   stock_columns (snd (rename_column one_product 1 ''price'' ''Cost'')) = [] \<and>
   fst (add_product (snd (rename_column one_product 1 ''price'' ''Cost'')) widget ''t'') \<noteq> Ok \<and>
   envanter_listesi (snd (rename_column one_product 1 ''price'' ''Cost'')) [] [] = Inl Unhandled"
proof -
  let ?s' = "snd (rename_column one_product 1 ''price'' ''Cost'')"
  have r: "reachable one_product"
    unfolding one_product_def fresh_store_def by (intro reachable_run reachable.init)
  have h: "''price'' \<in> set reserved_names" "''price'' \<in> set (product_columns one_product)"
    "sanitize (strip ''Cost'') \<noteq> []" "sanitize (strip ''Cost'') \<notin> set reserved_names"
    "sanitize (strip ''Cost'') \<notin> set (product_columns one_product)"
    "sql_identifier one_product ''price''" "sql_identifier one_product (sanitize (strip ''Cost''))"
    by code_simp+
  have n: "sanitize (strip ''Cost'') = ''cost''" by code_simp
  have c: "product_columns one_product = [''id'', ''user_product_id'', ''name'', ''price'']"
    by code_simp
  have d: "stock_columns one_product = []" by code_simp
  from rename_reserved_column [OF r h, of 1] obtain s' where
    ok: "rename_column one_product 1 ''price'' ''Cost'' = (Ok, s')"
    and pc: "product_columns s' =
       map (\<lambda>c. if c = ''price'' then sanitize (strip ''Cost'') else c) (product_columns one_product)"
    and sc: "stock_columns s' = stock_columns one_product"
    and el: "\<forall>nf lf. envanter_listesi s' nf lf = Inl Unhandled"
    and ap: "\<forall>form now. fst (add_product s' form now) \<noteq> Ok \<and> snd (add_product s' form now) = s'"
    by auto
  from ok have e: "?s' = s'" by simp
  show ?thesis unfolding e using ok pc sc el ap unfolding n c d by simp
qed

end
